theory Spec2Isabelle
  imports Complex_Main "HOL-Library.Product_Lexorder"
begin

section \<open>The scatterplot layer \<open>PointsWithLabels\<close>\<close>

text \<open>
  The model follows \<open>PointsWithLabels.tsx\<close>. JavaScript numbers are read as real numbers
  (exact arithmetic; \<open>NaN\<close>, infinities and rounding are outside the model). An optional
  boolean field that the source leaves \<open>undefined\<close> is \<open>False\<close>. A field whose source name
  would clash with a constant of HOL, with an Isabelle keyword or with a field of another
  record carries a short prefix (\<open>s_\<close> for \<open>ScatterSeries\<close>, \<open>v_\<close> for \<open>ScatterValue\<close>,
  \<open>rv_\<close> for \<open>ScatterRenderValue\<close>, \<open>rs_\<close> for \<open>ScatterRenderSeries\<close>, \<open>l_\<close> for
  \<open>ScatterLabel\<close>, \<open>p_\<close> for the props).
\<close>

subsection \<open>Geometry\<close>

text \<open>
  Modelled from the spec: \<open>Vector2.ts\<close> is not among the sources. A vector is a pair of
  coordinates; \<open>add\<close>, \<open>subtract\<close> and \<open>times\<close> are the componentwise 2-D vector
  arithmetic, \<open>up\<close> points to the upper edge of the screen (negative y), and \<open>normals\<close> gives
  both perpendicular candidates. The operations carry the prefix \<open>vec_\<close>, the edges of a
  rectangle the prefix \<open>b_\<close>.
\<close>

record Vector2 =
  vec_x :: real
  vec_y :: real

definition Vector2_zero :: Vector2 where
  "Vector2_zero = \<lparr>vec_x = 0, vec_y = 0\<rparr>"

definition Vector2_up :: Vector2 where
  "Vector2_up = \<lparr>vec_x = 0, vec_y = - 1\<rparr>"

definition vec_add :: "Vector2 \<Rightarrow> Vector2 \<Rightarrow> Vector2" where
  "vec_add a b = \<lparr>vec_x = vec_x a + vec_x b, vec_y = vec_y a + vec_y b\<rparr>"

definition vec_subtract :: "Vector2 \<Rightarrow> Vector2 \<Rightarrow> Vector2" where
  "vec_subtract a b = \<lparr>vec_x = vec_x a - vec_x b, vec_y = vec_y a - vec_y b\<rparr>"

definition vec_times :: "Vector2 \<Rightarrow> real \<Rightarrow> Vector2" where
  "vec_times a n = \<lparr>vec_x = vec_x a * n, vec_y = vec_y a * n\<rparr>"

definition vec_normals :: "Vector2 \<Rightarrow> Vector2 list" where
  "vec_normals a = [\<lparr>vec_x = - vec_y a, vec_y = vec_x a\<rparr>, \<lparr>vec_x = vec_y a, vec_y = - vec_x a\<rparr>]"


text \<open>
  Modelled from the spec: \<open>Bounds.ts\<close> is not among the sources. An axis-aligned rectangle
  is its upper left corner and its extent; \<open>left\<close>, \<open>right\<close>, \<open>top\<close> and \<open>bottom\<close> are its
  edges, and \<open>b.extend({ x: v })\<close> is the rectangle with that one field replaced, written
  as a record update.
\<close>

record Bounds =
  b_x :: real
  b_y :: real
  width :: real
  height :: real

definition b_left :: "Bounds \<Rightarrow> real" where
  "b_left b = b_x b"

definition b_right :: "Bounds \<Rightarrow> real" where
  "b_right b = b_x b + width b"

definition b_top :: "Bounds \<Rightarrow> real" where
  "b_top b = b_y b"

definition b_bottom :: "Bounds \<Rightarrow> real" where
  "b_bottom b = b_y b + height b"

subsection \<open>Data model\<close>

record TimePair =
  time_x :: real
  time_y :: real

text \<open>\<open>size\<close> may be absent (\<open>v.size||1\<close>), and so may \<open>color\<close> (\<open>d.color || ...\<close>).\<close>

record ScatterValue =
  v_x :: real
  v_y :: real
  v_size :: "real option"
  v_year :: real
  v_time :: TimePair

record ScatterSeries =
  s_color :: "string option"
  s_key :: string
  s_label :: string
  s_size :: "real option"
  s_values :: "ScatterValue list"

record ScatterRenderValue =
  position :: Vector2
  rv_size :: real
  rv_fontSize :: real
  rv_time :: TimePair

text \<open>
  The back-reference \<open>series\<close> of a label points to the render series that owns it. The
  labels read through it the key and the two flags \<open>isHover\<close> and \<open>isFocus\<close>, which are
  set before any label is made and never written afterwards; the model stores these.
\<close>

record SeriesRef =
  ref_key :: string
  ref_isHover :: bool
  ref_isFocus :: bool

record ScatterLabel =
  l_text :: string
  fontSize :: real
  pos :: Vector2
  bounds :: Bounds
  series :: SeriesRef
  isHidden :: bool
  isStart :: bool
  isMid :: bool
  isEnd :: bool

record ScatterRenderSeries =
  rs_key :: string
  displayKey :: string
  rs_color :: string
  rs_size :: real
  rs_values :: "ScatterRenderValue list"
  rs_text :: string
  isHover :: bool
  isFocus :: bool
  isForeground :: bool
  offsetVector :: Vector2
  startLabel :: "ScatterLabel option"
  midLabels :: "ScatterLabel list"
  endLabel :: "ScatterLabel option"
  allLabels :: "ScatterLabel list"

text \<open>
  The props of the component that the layout reads. \<open>focusKeys\<close> may be absent
  (\<open>this.props.focusKeys || []\<close>).
\<close>

record Props =
  p_data :: "ScatterSeries list"
  p_hoverKeys :: "string list"
  p_focusKeys :: "string list option"
  p_bounds :: Bounds
  p_sizeDomain :: "real \<times> real"

text \<open>
  What the component imports and the sources do not hold is a parameter of the model:
  the two axis scales once extended to the plot bounds (\<open>xScale.place\<close>, \<open>yScale.place\<close>),
  \<open>makeSafeForCSS\<close>, the default colour scale, \<open>Bounds.forText\<close> (text, x, y, font size),
  the printing of a number (\<open>toString\<close>), \<open>Bounds.intersects\<close>, and of \<open>Vector2\<close> the
  methods \<open>normalize\<close>, \<open>distance\<close>, \<open>distanceSq\<close> and \<open>distanceFromPointToLineSq\<close>.
\<close>

record Lib =
  xPlace :: "Bounds \<Rightarrow> real \<Rightarrow> real"
  yPlace :: "Bounds \<Rightarrow> real \<Rightarrow> real"
  makeSafeForCSS :: "string \<Rightarrow> string"
  defaultColorScale :: "string \<Rightarrow> string"
  forText :: "string \<Rightarrow> real \<Rightarrow> real \<Rightarrow> real \<Rightarrow> Bounds"
  numToString :: "real \<Rightarrow> string"
  intersects :: "Bounds \<Rightarrow> Bounds \<Rightarrow> bool"
  vec_normalize :: "Vector2 \<Rightarrow> Vector2"
  vec_distance :: "Vector2 \<Rightarrow> Vector2 \<Rightarrow> real"
  vec_distanceSq :: "Vector2 \<Rightarrow> Vector2 \<Rightarrow> real"
  vec_distanceFromPointToLineSq :: "Vector2 \<Rightarrow> Vector2 \<Rightarrow> Vector2 \<Rightarrow> real"

text \<open>Reading a property of \<open>undefined\<close> throws a \<open>TypeError\<close>.\<close>

datatype error = TypeError

fun mapE :: "('a \<Rightarrow> error + 'b) \<Rightarrow> 'a list \<Rightarrow> error + 'b list" where
  "mapE f [] = Inr []"
| "mapE f (x # xs) =
     (case f x of
        Inl e \<Rightarrow> Inl e
      | Inr y \<Rightarrow> (case mapE f xs of Inl e \<Rightarrow> Inl e | Inr ys \<Rightarrow> Inr (y # ys)))"

subsection \<open>Computed properties\<close>

definition focusKeys :: "Props \<Rightarrow> string list" where
  "focusKeys p = (case p_focusKeys p of None \<Rightarrow> [] | Some ks \<Rightarrow> ks)"

text \<open>The hover key is \<open>string|null\<close>; the empty string is falsy as \<open>null\<close> is.\<close>

definition hoverKeys :: "Props \<Rightarrow> string option \<Rightarrow> string list" where
  "hoverKeys p hoverKey =
     p_hoverKeys p @ (case hoverKey of None \<Rightarrow> [] | Some k \<Rightarrow> if k = [] then [] else [k])"

definition isLayerMode :: "Props \<Rightarrow> string option \<Rightarrow> bool" where
  "isLayerMode p hoverKey \<longleftrightarrow> length (focusKeys p) > 0 \<or> length (hoverKeys p hoverKey) > 0"

definition isConnected :: "Props \<Rightarrow> bool" where
  "isConnected p \<longleftrightarrow> list_ex (\<lambda>series. length (s_values series) > 1) (p_data p)"

definition isSubtleForeground :: "Props \<Rightarrow> bool" where
  "isSubtleForeground p \<longleftrightarrow>
     length (focusKeys p) > 1 \<and> list_ex (\<lambda>series. length (s_values series) > 2) (p_data p)"

text \<open>
  \<open>d3.scaleLinear().range([r0, r1]).domain([d0, d1])\<close>: the linear map that sends \<open>d0\<close> to
  \<open>r0\<close> and \<open>d1\<close> to \<open>r1\<close>, not clamped; on a domain of one point it is constantly \<open>r0\<close>.
\<close>

definition scaleLinear :: "real \<times> real \<Rightarrow> real \<times> real \<Rightarrow> real \<Rightarrow> real" where
  "scaleLinear rng dmn v =
     (if snd dmn = fst dmn then fst rng
      else fst rng + (snd rng - fst rng) * ((v - fst dmn) / (snd dmn - fst dmn)))"

definition sizeScale :: "Props \<Rightarrow> real \<Rightarrow> real" where
  "sizeScale p = scaleLinear (10, 1000) (p_sizeDomain p)"

definition fontScale :: "Props \<Rightarrow> real \<Rightarrow> real" where
  "fontScale p = scaleLinear (10, 13) (p_sizeDomain p)"

text \<open>\<open>size||1\<close>: an absent size and the size 0 are falsy and give 1.\<close>

definition orOne :: "real option \<Rightarrow> real" where
  "orOne s = (case s of None \<Rightarrow> 1 | Some n \<Rightarrow> if n = 0 then 1 else n)"

subsection \<open>\<open>initialRenderData\<close>\<close>

text \<open>
  The area of a marker is negative when the size of the value lies far enough outside
  the size domain (a value without size counts as 1, below a domain such as
  \<open>[100, 200]\<close>). \<open>Math.sqrt\<close> of a negative number is \<open>NaN\<close>, which the model does not
  have: \<open>sqrt\<close> on the reals is negative there. A statement about the order of the sizes
  therefore assumes that the areas it depends on are not negative.
\<close>

definition renderValue :: "Lib \<Rightarrow> Props \<Rightarrow> ScatterSeries \<Rightarrow> ScatterValue \<Rightarrow> ScatterRenderValue" where
  "renderValue lib p d v =
     (let area = sizeScale p (orOne (v_size v))
      in \<lparr>position = \<lparr>vec_x = of_int \<lfloor>xPlace lib (p_bounds p) (v_x v)\<rfloor>,
                      vec_y = of_int \<lfloor>yPlace lib (p_bounds p) (v_y v)\<rfloor>\<rparr>,
          rv_size = sqrt (area / pi),
          rv_fontSize = fontScale p (orOne (s_size d)),
          rv_time = v_time v\<rparr>)"

text \<open>\<open>(_.last(values) as any).size\<close> throws when the series has no value.\<close>

definition initialSeries :: "Lib \<Rightarrow> Props \<Rightarrow> ScatterSeries \<Rightarrow> error + ScatterRenderSeries" where
  "initialSeries lib p d =
     (let values = map (renderValue lib p d) (s_values d)
      in if values = [] then Inl TypeError
         else Inr \<lparr>rs_key = s_key d,
                   displayKey = ''key-'' @ makeSafeForCSS lib (s_key d),
                   rs_color = (case s_color d of
                                 None \<Rightarrow> defaultColorScale lib (s_key d)
                               | Some c \<Rightarrow> if c = [] then defaultColorScale lib (s_key d) else c),
                   rs_size = rv_size (last values),
                   rs_values = values,
                   rs_text = s_label d,
                   isHover = False,
                   isFocus = False,
                   isForeground = False,
                   offsetVector = Vector2_zero,
                   startLabel = None,
                   midLabels = [],
                   endLabel = None,
                   allLabels = []\<rparr>)"

text \<open>\<open>_.sortBy\<close> is a stable ascending sort, as \<open>sort_key\<close> is.\<close>

definition initialRenderData :: "Lib \<Rightarrow> Props \<Rightarrow> error + ScatterRenderSeries list" where
  "initialRenderData lib p =
     (case mapE (initialSeries lib p) (p_data p) of
        Inl e \<Rightarrow> Inl e
      | Inr rs \<Rightarrow> Inr (sort_key rs_size rs))"

subsection \<open>Label synthesis\<close>

definition labelPriority :: "ScatterLabel \<Rightarrow> real" where
  "labelPriority l =
     (let priority = fontSize l;
          priority = (if ref_isHover (series l) then priority + 10000 else priority);
          priority = (if ref_isFocus (series l) then priority + 1000 else priority);
          priority = (if isEnd l then priority + 100 else priority)
      in priority)"

definition seriesRef :: "ScatterRenderSeries \<Rightarrow> SeriesRef" where
  "seriesRef s = \<lparr>ref_key = rs_key s, ref_isHover = isHover s, ref_isFocus = isFocus s\<rparr>"

text \<open>
  \<open>makeStartLabel\<close>: the start year label, \<open>undefined\<close> (here \<open>None\<close>) for a series that is
  not in the foreground or has a single point. The first argument of the three label
  makers after the library is \<open>this.isSubtleForeground\<close>.
\<close>

definition makeStartLabel :: "Lib \<Rightarrow> bool \<Rightarrow> ScatterRenderSeries \<Rightarrow> ScatterLabel option" where
  "makeStartLabel lib subtle s =
     (if \<not> isForeground s \<or> length (rs_values s) \<le> 1 then None
      else
        let fontSz = (if isForeground s then (if subtle then 8 else 9) else 7);
            firstValue = rs_values s ! 0;
            nextValue = rs_values s ! 1;
            nextSegment = vec_subtract (position nextValue) (position firstValue);
            lpos = vec_subtract (position firstValue) (vec_times (vec_normalize lib nextSegment) 5);
            bnds = forText lib (numToString lib (time_y (rv_time firstValue)))
                     (vec_x lpos) (vec_y lpos) fontSz;
            bnds = (if vec_x lpos < vec_x (position firstValue)
                    then \<lparr>b_x = b_x bnds - width bnds + 2, b_y = b_y bnds,
                          width = width bnds, height = height bnds\<rparr>
                    else bnds);
            bnds = (if vec_y lpos > vec_y (position firstValue)
                    then \<lparr>b_x = b_x bnds, b_y = b_y bnds + height bnds / 2,
                          width = width bnds, height = height bnds\<rparr>
                    else bnds)
        in Some \<lparr>l_text = numToString lib (time_y (rv_time firstValue)),
                  fontSize = fontSz,
                  pos = position firstValue,
                  bounds = bnds,
                  series = seriesRef s,
                  isHidden = False,
                  isStart = True,
                  isMid = False,
                  isEnd = False\<rparr>)"

text \<open>
  The callback of \<open>makeMidLabels\<close>, for the value \<open>v\<close> at index \<open>i\<close> of
  \<open>series.values.slice(1, -1)\<close>. As in the source, \<open>i\<close> counts within the slice and
  indexes \<open>series.values\<close>; \<open>i + 1\<close> is below the length of \<open>series.values\<close> there. The two
  candidate spots are sorted by the negated sum of distances and the first one is taken;
  \<open>normals\<close> gives two vectors, so the sorted list has a head.
\<close>

definition midLabel :: "Lib \<Rightarrow> bool \<Rightarrow> ScatterRenderSeries \<Rightarrow> ScatterRenderValue \<Rightarrow> nat \<Rightarrow> ScatterLabel" where
  "midLabel lib subtle s v i =
     (let fontSz = (if isForeground s then (if subtle then 8 else 9) else 7);
          nextPos = position (rs_values s ! (i + 1));
          nextSegment = vec_subtract nextPos (position v);
          lpos = (if i > 0
                  then let prevPos = position (rs_values s ! (i - 1));
                           prevSegment = vec_subtract (position v) prevPos;
                           nrmls = map (\<lambda>n. vec_times n 5)
                                     (vec_normals (vec_normalize lib (vec_add prevSegment nextSegment)));
                           potentialSpots = map (\<lambda>n. vec_add (position v) n) nrmls
                       in hd (sort_key (\<lambda>q. - (vec_distance lib q prevPos + vec_distance lib q nextPos))
                                 potentialSpots)
                  else vec_subtract (position v) (vec_times (vec_normalize lib nextSegment) 5));
          bnds = forText lib (numToString lib (time_y (rv_time v))) (vec_x lpos) (vec_y lpos) fontSz;
          bnds = (if vec_x lpos < vec_x (position v)
                  then \<lparr>b_x = b_x bnds - width bnds + 2, b_y = b_y bnds,
                        width = width bnds, height = height bnds\<rparr>
                  else bnds);
          bnds = (if vec_y lpos > vec_y (position v)
                  then \<lparr>b_x = b_x bnds, b_y = b_y bnds + height bnds / 2,
                        width = width bnds, height = height bnds\<rparr>
                  else bnds)
      in \<lparr>l_text = numToString lib (time_y (rv_time v)),
          fontSize = fontSz,
          pos = position v,
          bounds = bnds,
          series = seriesRef s,
          isHidden = False,
          isStart = False,
          isMid = True,
          isEnd = False\<rparr>)"

text \<open>\<open>xs.slice(1, -1)\<close>: the list without its first and its last element.\<close>

definition slice_inner :: "'a list \<Rightarrow> 'a list" where
  "slice_inner xs = butlast (drop 1 xs)"

definition makeMidLabels :: "Lib \<Rightarrow> bool \<Rightarrow> ScatterRenderSeries \<Rightarrow> ScatterLabel list" where
  "makeMidLabels lib subtle s =
     (if \<not> isForeground s \<or> length (rs_values s) \<le> 1 \<or> (\<not> isHover s \<and> subtle) then []
      else map (\<lambda>(v, i). midLabel lib subtle s v i)
             (zip (slice_inner (rs_values s)) [0 ..< length (slice_inner (rs_values s))]))"

text \<open>
  \<open>makeEndLabel\<close> writes \<open>series.offsetVector\<close> and returns the label: the model returns
  the series so updated together with the label. \<open>_.last(series.values)\<close> is \<open>undefined\<close>
  for a series without values, and reading its \<open>position\<close> throws.
\<close>

definition makeEndLabel :: "Lib \<Rightarrow> bool \<Rightarrow> ScatterRenderSeries \<Rightarrow> error + ScatterRenderSeries \<times> ScatterLabel" where
  "makeEndLabel lib subtle s =
     (if rs_values s = [] then Inl TypeError
      else
        let lastValue = last (rs_values s);
            lastPos = position lastValue;
            fontSz = rv_fontSize lastValue
                       * (if isForeground s then (if subtle then 1.2 else 1.3) else 1.1);
            offsetV = (if length (rs_values s) > 1
                       then let prevValue = rs_values s ! (length (rs_values s) - 2);
                                prevPos = position prevValue
                            in vec_subtract lastPos prevPos
                       else Vector2_up);
            labelPos = vec_add lastPos
                         (vec_times (vec_normalize lib offsetV)
                            (if length (rs_values s) = 1 then rv_size lastValue + 1 else 5));
            labelBounds = forText lib (rs_text s) (vec_x labelPos) (vec_y labelPos) fontSz;
            labelBounds = (if vec_x labelPos < vec_x lastPos
                           then labelBounds\<lparr>b_x := b_x labelBounds - width labelBounds\<rparr>
                           else labelBounds);
            labelBounds = (if vec_y labelPos > vec_y lastPos
                           then labelBounds\<lparr>b_y := b_y labelBounds + height labelBounds / 2\<rparr>
                           else labelBounds)
        in Inr (s\<lparr>offsetVector := offsetV\<rparr>,
                \<lparr>l_text = rs_text s,
                 fontSize = fontSz,
                 pos = labelPos,
                 bounds = labelBounds,
                 series = seriesRef s,
                 isHidden = False,
                 isStart = False,
                 isMid = False,
                 isEnd = True\<rparr>))"

text \<open>
  The body of the second loop of \<open>renderData\<close>. \<open>_.filter\<close> without a predicate drops the
  \<open>undefined\<close> start label and keeps every label there is.
\<close>

definition makeLabels :: "Lib \<Rightarrow> bool \<Rightarrow> ScatterRenderSeries \<Rightarrow> error + ScatterRenderSeries" where
  "makeLabels lib subtle s =
     (let start = makeStartLabel lib subtle s;
          mids = makeMidLabels lib subtle s
      in case makeEndLabel lib subtle s of
           Inl e \<Rightarrow> Inl e
         | Inr (s', endL) \<Rightarrow>
             Inr (s'\<lparr>startLabel := start,
                     midLabels := mids,
                     endLabel := Some endL,
                     allLabels := (case start of None \<Rightarrow> [] | Some l \<Rightarrow> [l]) @ mids @ [endL]\<rparr>))"

subsection \<open>Collision resolution\<close>

text \<open>
  The flat list \<open>allLabels\<close> of \<open>renderData\<close> holds the label objects themselves, and both
  passes write to them in place. The model keeps the flat list as the store of the labels:
  a label is addressed by its index there. The first pass moves each label on its own.
\<close>

definition clampLabel :: "Bounds \<Rightarrow> ScatterLabel \<Rightarrow> ScatterLabel" where
  "clampLabel plot l =
     (let l = (if b_left (bounds l) < b_left plot - 1
               then l\<lparr>bounds := (bounds l)\<lparr>b_x := b_x (bounds l) + width (bounds l)\<rparr>\<rparr>
               else if b_right (bounds l) > b_right plot + 1
               then l\<lparr>bounds := (bounds l)\<lparr>b_x := b_x (bounds l) - width (bounds l)\<rparr>\<rparr>
               else l);
          l = (if b_top (bounds l) < b_top plot - 1
               then l\<lparr>bounds := (bounds l)\<lparr>b_y := b_top plot\<rparr>\<rparr>
               else if b_bottom (bounds l) > b_bottom plot + 1
               then l\<lparr>bounds := (bounds l)\<lparr>b_y := b_bottom plot - height (bounds l)\<rparr>\<rparr>
               else l)
      in l)"

definition clampPass :: "Bounds \<Rightarrow> ScatterLabel list \<Rightarrow> ScatterLabel list" where
  "clampPass plot ls = map (clampLabel plot) ls"

text \<open>
  \<open>labelsByPriority\<close> is the list of the labels' addresses, sorted by descending priority
  with the stable sort of \<open>_.sortBy\<close>.
\<close>

definition labelsByPriority :: "ScatterLabel list \<Rightarrow> nat list" where
  "labelsByPriority ls = sort_key (\<lambda>i. - labelPriority (ls ! i)) [0 ..< length ls]"

text \<open>
  The inner loop, over the addresses \<open>j\<close> that follow \<open>i\<close> in the priority order, for the
  label \<open>l1\<close> at \<open>i\<close>; then the outer loop.
\<close>

fun hideLater :: "Lib \<Rightarrow> ScatterLabel \<Rightarrow> nat list \<Rightarrow> ScatterLabel list \<Rightarrow> ScatterLabel list" where
  "hideLater lib l1 [] st = st"
| "hideLater lib l1 (j # js) st =
     (if isHidden (st ! j) then hideLater lib l1 js st
      else if intersects lib (bounds l1) (bounds (st ! j))
      then hideLater lib l1 js (st[j := (st ! j)\<lparr>isHidden := True\<rparr>])
      else hideLater lib l1 js st)"

fun collide :: "Lib \<Rightarrow> nat list \<Rightarrow> ScatterLabel list \<Rightarrow> ScatterLabel list" where
  "collide lib [] st = st"
| "collide lib (i # rest) st =
     (if isHidden (st ! i) then collide lib rest st
      else collide lib rest (hideLater lib (st ! i) rest st))"

definition collisionPass :: "Lib \<Rightarrow> ScatterLabel list \<Rightarrow> ScatterLabel list" where
  "collisionPass lib ls = collide lib (labelsByPriority ls) ls"

definition resolveCollisions :: "Lib \<Rightarrow> Bounds \<Rightarrow> ScatterLabel list \<Rightarrow> ScatterLabel list" where
  "resolveCollisions lib plot ls = collisionPass lib (clampPass plot ls)"

subsection \<open>\<open>renderData\<close>\<close>

definition setFlags :: "string list \<Rightarrow> string list \<Rightarrow> ScatterRenderSeries \<Rightarrow> ScatterRenderSeries" where
  "setFlags hks fks s =
     (let s = s\<lparr>isHover := rs_key s \<in> set hks\<rparr>;
          s = s\<lparr>isFocus := rs_key s \<in> set fks\<rparr>;
          s = s\<lparr>isForeground := isHover s \<or> isFocus s\<rparr>
      in if isHover s then s\<lparr>rs_size := rs_size s + 1\<rparr> else s)"

text \<open>
  The labels of a series are the same objects as those of the flat list, so the series
  of the result see them as the two passes left them: each series takes back its stretch
  of the flat list, in the order start, mid, end in which \<open>allLabels\<close> was built.
\<close>

fun writeBack :: "ScatterRenderSeries list \<Rightarrow> ScatterLabel list \<Rightarrow> ScatterRenderSeries list" where
  "writeBack [] ls = []"
| "writeBack (s # ss) ls =
     (let mine = take (length (allLabels s)) ls;
          mids = (case startLabel s of None \<Rightarrow> mine | Some _ \<Rightarrow> drop 1 mine)
      in s\<lparr>startLabel := (case (startLabel s, mine) of (Some _, l # _) \<Rightarrow> Some l | _ \<Rightarrow> None),
            midLabels := take (length (midLabels s)) mids,
            endLabel := (case endLabel s of None \<Rightarrow> None
                         | Some _ \<Rightarrow> if mine = [] then None else Some (last mine)),
            allLabels := mine\<rparr>
         # writeBack ss (drop (length (allLabels s)) ls))"

definition renderData :: "Lib \<Rightarrow> Props \<Rightarrow> string option \<Rightarrow> error + ScatterRenderSeries list" where
  "renderData lib p hoverKey =
     (case initialRenderData lib p of
        Inl e \<Rightarrow> Inl e
      | Inr initial \<Rightarrow>
          let rd = sort_key (\<lambda>d. - rs_size d) initial;
              rd = map (setFlags (hoverKeys p hoverKey) (focusKeys p)) rd
          in case mapE (makeLabels lib (isSubtleForeground p)) rd of
               Inl e \<Rightarrow> Inl e
             | Inr rd \<Rightarrow>
                 let labels = concat (map allLabels rd)
                 in Inr (writeBack rd (resolveCollisions lib (p_bounds p) labels)))"

definition backgroundGroups :: "ScatterRenderSeries list \<Rightarrow> ScatterRenderSeries list" where
  "backgroundGroups rd = filter (\<lambda>group. \<not> isForeground group) rd"

definition foregroundGroups :: "ScatterRenderSeries list \<Rightarrow> ScatterRenderSeries list" where
  "foregroundGroups rd = filter (\<lambda>group. isForeground group) rd"

subsection \<open>Interaction\<close>

text \<open>
  The state of the component is its props and the hover key. The callbacks of the props
  are effects outside the component; the model records each call, the latest last. An
  event is the run of a handler's frame callback, or new props from the parent.
\<close>

datatype callback = OnMouseOver ScatterSeries | OnMouseLeave | OnSelectEntity string

record Component =
  props :: Props
  hoverKey :: "string option"
  calls :: "callback list"

datatype event = MouseMove Vector2 | MouseLeave | Click | SetProps Props

definition initialComponent :: "Props \<Rightarrow> Component" where
  "initialComponent p = \<lparr>props = p, hoverKey = None, calls = []\<rparr>"

text \<open>\<open>_.min\<close> of an empty array is \<open>undefined\<close>, and \<open>_.sortBy\<close> puts \<open>undefined\<close> last.\<close>

definition min_opt :: "real list \<Rightarrow> real option" where
  "min_opt xs = (case xs of [] \<Rightarrow> None | x # ys \<Rightarrow> Some (fold min ys x))"

definition undefinedLast :: "real option \<Rightarrow> bool \<times> real" where
  "undefinedLast m = (case m of None \<Rightarrow> (True, 0) | Some r \<Rightarrow> (False, r))"

definition seriesDistance :: "Lib \<Rightarrow> Props \<Rightarrow> Vector2 \<Rightarrow> ScatterRenderSeries \<Rightarrow> real option" where
  "seriesDistance lib p mouse s =
     (if isConnected p
      then min_opt (map (\<lambda>(d, i). vec_distanceFromPointToLineSq lib mouse (position d)
                                    (position (rs_values s ! (i + 1))))
                      (zip (butlast (rs_values s)) [0 ..< length (butlast (rs_values s))]))
      else min_opt (map (\<lambda>v. vec_distanceSq lib (position v) mouse) (rs_values s)))"

definition onMouseLeave :: "Component \<Rightarrow> Component" where
  "onMouseLeave c = c\<lparr>hoverKey := None, calls := calls c @ [OnMouseLeave]\<rparr>"

text \<open>When \<open>this.renderData\<close> throws, the handler ends before it writes anything.\<close>

definition onMouseMove :: "Lib \<Rightarrow> Component \<Rightarrow> Vector2 \<Rightarrow> error + Component" where
  "onMouseMove lib c mouse =
     (case renderData lib (props c) (hoverKey c) of
        Inl e \<Rightarrow> Inl e
      | Inr rd \<Rightarrow>
          let hk = (case sort_key (\<lambda>s. undefinedLast (seriesDistance lib (props c) mouse s)) rd of
                      [] \<Rightarrow> None
                    | closestSeries # _ \<Rightarrow> Some (rs_key closestSeries))
          in Inr (c\<lparr>hoverKey := hk,
                    calls := (case find (\<lambda>d. Some (s_key d) = hk) (p_data (props c)) of
                                None \<Rightarrow> calls c
                              | Some datum \<Rightarrow> calls c @ [OnMouseOver datum])\<rparr>))"

definition onClick :: "Component \<Rightarrow> Component" where
  "onClick c =
     (case hoverKey c of
        None \<Rightarrow> c
      | Some k \<Rightarrow> if k = [] then c else c\<lparr>calls := calls c @ [OnSelectEntity k]\<rparr>)"

fun step :: "Lib \<Rightarrow> Component \<Rightarrow> event \<Rightarrow> Component" where
  "step lib c (MouseMove mouse) = (case onMouseMove lib c mouse of Inl e \<Rightarrow> c | Inr c' \<Rightarrow> c')"
| "step lib c MouseLeave = onMouseLeave c"
| "step lib c Click = onClick c"
| "step lib c (SetProps p) = c\<lparr>props := p\<rparr>"

definition run :: "Lib \<Rightarrow> Component \<Rightarrow> event list \<Rightarrow> Component" where
  "run lib c evs = foldl (step lib) c evs"

section \<open>Concrete inputs\<close>

text \<open>
  An instance of the library, to evaluate the layout at concrete inputs: the usual
  intersection test of two axis-aligned rectangles, Euclidean vectors, axis scales that
  place a value at itself, a text box half the font size wide per character, and the
  printing of the one year, 2000, that the values of the examples have.
\<close>

definition rectsIntersect :: "Bounds \<Rightarrow> Bounds \<Rightarrow> bool" where
  "rectsIntersect r1 r2 \<longleftrightarrow>
     b_left r2 \<le> b_right r1 \<and> b_left r1 \<le> b_right r2 \<and>
     b_top r2 \<le> b_bottom r1 \<and> b_top r1 \<le> b_bottom r2"

definition euclidNormalize :: "Vector2 \<Rightarrow> Vector2" where
  "euclidNormalize a =
     (let magnitude = sqrt (vec_x a * vec_x a + vec_y a * vec_y a)
      in if magnitude > 0 then \<lparr>vec_x = vec_x a / magnitude, vec_y = vec_y a / magnitude\<rparr>
         else Vector2_zero)"

definition euclidDistanceSq :: "Vector2 \<Rightarrow> Vector2 \<Rightarrow> real" where
  "euclidDistanceSq a b =
     (vec_x b - vec_x a) * (vec_x b - vec_x a) + (vec_y b - vec_y a) * (vec_y b - vec_y a)"

definition euclidDistanceToSegmentSq :: "Vector2 \<Rightarrow> Vector2 \<Rightarrow> Vector2 \<Rightarrow> real" where
  "euclidDistanceToSegmentSq q a b =
     (let l2 = euclidDistanceSq a b
      in if l2 = 0 then euclidDistanceSq q a
         else
           let t = ((vec_x q - vec_x a) * (vec_x b - vec_x a)
                      + (vec_y q - vec_y a) * (vec_y b - vec_y a)) / l2;
               t = max 0 (min 1 t)
           in euclidDistanceSq q (vec_add a (vec_times (vec_subtract b a) t)))"

definition exampleLib :: Lib where
  "exampleLib =
     \<lparr>xPlace = (\<lambda>b v. v),
      yPlace = (\<lambda>b v. v),
      makeSafeForCSS = (\<lambda>k. k),
      defaultColorScale = (\<lambda>k. ''#1f77b4''),
      forText = (\<lambda>t x y fs. \<lparr>b_x = x, b_y = y, width = fs * real (length t) / 2, height = fs\<rparr>),
      numToString = (\<lambda>n. ''2000''),
      intersects = rectsIntersect,
      vec_normalize = euclidNormalize,
      vec_distance = (\<lambda>a b. sqrt (euclidDistanceSq a b)),
      vec_distanceSq = euclidDistanceSq,
      vec_distanceFromPointToLineSq = euclidDistanceToSegmentSq\<rparr>"

definition exampleValue :: "real \<Rightarrow> real \<Rightarrow> real option \<Rightarrow> ScatterValue" where
  "exampleValue x y sz =
     \<lparr>v_x = x, v_y = y, v_size = sz, v_year = 2000, v_time = \<lparr>time_x = 2000, time_y = 2000\<rparr>\<rparr>"

definition examplePlot :: Bounds where
  "examplePlot = \<lparr>b_x = 0, b_y = 0, width = 500, height = 500\<rparr>"

text \<open>One series of size 1 whose only value has size 2, over the size domain \<open>[1, 2]\<close>.\<close>

definition sizedSeries :: ScatterSeries where
  "sizedSeries =
     \<lparr>s_color = None, s_key = ''A'', s_label = ''Foo'', s_size = Some 1,
      s_values = [exampleValue 0 0 (Some 2)]\<rparr>"

definition sizedProps :: Props where
  "sizedProps =
     \<lparr>p_data = [sizedSeries], p_hoverKeys = [], p_focusKeys = None,
      p_bounds = examplePlot, p_sizeDomain = (1, 2)\<rparr>"

definition sizedRendered :: ScatterRenderSeries where
  "sizedRendered =
     \<lparr>rs_key = ''A'', displayKey = ''key-A'', rs_color = ''#1f77b4'',
      rs_size = sqrt (1000 / pi),
      rs_values = [\<lparr>position = \<lparr>vec_x = 0, vec_y = 0\<rparr>, rv_size = sqrt (1000 / pi),
                    rv_fontSize = 10, rv_time = \<lparr>time_x = 2000, time_y = 2000\<rparr>\<rparr>],
      rs_text = ''Foo'', isHover = False, isFocus = False, isForeground = False,
      offsetVector = Vector2_zero, startLabel = None, midLabels = [], endLabel = None,
      allLabels = []\<rparr>"

text \<open>A render series with the given values, focused (and so in the foreground) or not.\<close>

definition renderValueAt :: "real \<Rightarrow> real \<Rightarrow> ScatterRenderValue" where
  "renderValueAt x y =
     \<lparr>position = \<lparr>vec_x = x, vec_y = y\<rparr>, rv_size = 2, rv_fontSize = 10,
      rv_time = \<lparr>time_x = 2000, time_y = 2000\<rparr>\<rparr>"

definition exampleRenderSeries :: "bool \<Rightarrow> ScatterRenderValue list \<Rightarrow> ScatterRenderSeries" where
  "exampleRenderSeries fg vs =
     \<lparr>rs_key = ''A'', displayKey = ''key-A'', rs_color = ''#1f77b4'', rs_size = 2,
      rs_values = vs, rs_text = ''Foo'', isHover = False, isFocus = fg, isForeground = fg,
      offsetVector = Vector2_zero, startLabel = None, midLabels = [], endLabel = None,
      allLabels = []\<rparr>"

text \<open>
  Labels with a box of 10 by 10 at a given place and with a given font size, which is
  their priority. In \<open>chainLabels\<close> the first box meets the second and the second meets
  the third, but the first does not meet the third. \<open>farLabel\<close> lies 100 to the left of
  the plot.
\<close>

definition exampleLabel :: "real \<Rightarrow> real \<Rightarrow> real \<Rightarrow> ScatterLabel" where
  "exampleLabel fs x y =
     \<lparr>l_text = ''2000'', fontSize = fs, pos = \<lparr>vec_x = x, vec_y = y\<rparr>,
      bounds = \<lparr>b_x = x, b_y = y, width = 10, height = 10\<rparr>,
      series = \<lparr>ref_key = ''A'', ref_isHover = False, ref_isFocus = False\<rparr>,
      isHidden = False, isStart = False, isMid = True, isEnd = False\<rparr>"

definition chainLabels :: "ScatterLabel list" where
  "chainLabels = [exampleLabel 13 0 0, exampleLabel 12 8 0, exampleLabel 11 16 0]"

definition farLabel :: ScatterLabel where
  "farLabel = exampleLabel 12 (- 100) 10"

text \<open>
  Two series of one value each, of sizes 1 and 2 over the size domain \<open>[1, 2]\<close>: the
  marker areas are 10 and 1000.
\<close>

definition smallSeries :: ScatterSeries where
  "smallSeries =
     \<lparr>s_color = None, s_key = ''A'', s_label = ''Foo'', s_size = None,
      s_values = [exampleValue 0 0 (Some 1)]\<rparr>"

definition bigSeries :: ScatterSeries where
  "bigSeries =
     \<lparr>s_color = None, s_key = ''B'', s_label = ''Bar'', s_size = None,
      s_values = [exampleValue 100 100 (Some 2)]\<rparr>"

definition twoProps :: Props where
  "twoProps =
     \<lparr>p_data = [smallSeries, bigSeries], p_hoverKeys = [], p_focusKeys = None,
      p_bounds = examplePlot, p_sizeDomain = (1, 2)\<rparr>"

text \<open>The series of a result, none if \<open>renderData\<close> threw.\<close>

definition rendered :: "error + ScatterRenderSeries list \<Rightarrow> ScatterRenderSeries list" where
  "rendered r = (case r of Inl e \<Rightarrow> [] | Inr rd \<Rightarrow> rd)"


text \<open>
  One focused series whose first point lies on the left edge of the plot and whose path
  leads 100 pixels to the right; then the series as it is after the first loop of
  \<open>renderData\<close>, and its start and end label as they are made.
\<close>

definition edgeData :: ScatterSeries where
  "edgeData =
     \<lparr>s_color = None, s_key = ''A'', s_label = ''Foo'', s_size = Some 1,
      s_values = [exampleValue 0 100 None, exampleValue 100 100 None]\<rparr>"

definition edgeProps :: Props where
  "edgeProps =
     \<lparr>p_data = [edgeData], p_hoverKeys = [], p_focusKeys = Some [''A''],
      p_bounds = examplePlot, p_sizeDomain = (1, 2)\<rparr>"

definition edgeSeries :: ScatterRenderSeries where
  "edgeSeries =
     \<lparr>rs_key = ''A'', displayKey = ''key-A'', rs_color = ''#1f77b4'', rs_size = sqrt (10 / pi),
      rs_values = [\<lparr>position = \<lparr>vec_x = 0, vec_y = 100\<rparr>, rv_size = sqrt (10 / pi),
                    rv_fontSize = 10, rv_time = \<lparr>time_x = 2000, time_y = 2000\<rparr>\<rparr>,
                   \<lparr>position = \<lparr>vec_x = 100, vec_y = 100\<rparr>, rv_size = sqrt (10 / pi),
                    rv_fontSize = 10, rv_time = \<lparr>time_x = 2000, time_y = 2000\<rparr>\<rparr>],
      rs_text = ''Foo'', isHover = False, isFocus = True, isForeground = True,
      offsetVector = Vector2_zero, startLabel = None, midLabels = [], endLabel = None,
      allLabels = []\<rparr>"

definition edgeLabel :: ScatterLabel where
  "edgeLabel =
     \<lparr>l_text = ''2000'', fontSize = 9, pos = \<lparr>vec_x = 0, vec_y = 100\<rparr>,
      bounds = \<lparr>b_x = - 21, b_y = 100, width = 18, height = 9\<rparr>,
      series = \<lparr>ref_key = ''A'', ref_isHover = False, ref_isFocus = True\<rparr>,
      isHidden = False, isStart = True, isMid = False, isEnd = False\<rparr>"

definition edgeEndLabel :: ScatterLabel where
  "edgeEndLabel =
     \<lparr>l_text = ''Foo'', fontSize = 13, pos = \<lparr>vec_x = 105, vec_y = 100\<rparr>,
      bounds = \<lparr>b_x = 105, b_y = 100, width = 39 / 2, height = 13\<rparr>,
      series = \<lparr>ref_key = ''A'', ref_isHover = False, ref_isFocus = True\<rparr>,
      isHidden = False, isStart = False, isMid = False, isEnd = True\<rparr>"

text \<open>
  New props for a component that shows \<open>sizedProps\<close>: a second series, and other values
  for the series \<open>A\<close>, which keeps its key.
\<close>

definition updatedProps :: Props where
  "updatedProps =
     sizedProps\<lparr>p_data := [bigSeries,
                            sizedSeries\<lparr>s_values := [exampleValue 1 1 None, exampleValue 2 2 None]\<rparr>]\<rparr>"

section \<open>Properties\<close>

subsection \<open>Results of \<open>mapE\<close> and of \<open>initialRenderData\<close>\<close>

lemma mapE_Inr_member:
  "mapE f xs = Inr ys \<Longrightarrow> y \<in> set ys \<Longrightarrow> \<exists>x \<in> set xs. f x = Inr y"
proof (induction xs arbitrary: ys)
  case Nil
  then show ?case by simp
next
  case (Cons x xs)
  then show ?case
    by (fastforce split: sum.splits)
qed

lemma mapE_total:
  "(\<And>x. x \<in> set xs \<Longrightarrow> \<exists>y. f x = Inr y) \<Longrightarrow> \<exists>ys. mapE f xs = Inr ys"
proof (induction xs)
  case Nil
  then show ?case by simp
next
  case (Cons x xs)
  then obtain y ys where "f x = Inr y" and "mapE f xs = Inr ys"
    by (metis list.set_intros(1) list.set_intros(2))
  then show ?case by simp
qed

lemma mapE_map_rel:
  "mapE g xs = Inr ys \<Longrightarrow> (\<And>x y. g x = Inr y \<Longrightarrow> f y = h x) \<Longrightarrow> map f ys = map h xs"
proof (induction xs arbitrary: ys)
  case Nil
  then show ?case by simp
next
  case (Cons x xs)
  then show ?case
    by (auto split: sum.splits)
qed

lemma initialSeries_Inr:
  assumes "initialSeries lib p d = Inr s"
  shows "rs_key s = s_key d"
    and "rs_values s = map (renderValue lib p d) (s_values d)"
    and "s_values d \<noteq> []"
    and "rs_size s = rv_size (last (rs_values s))"
    and "rs_text s = s_label d"
  using assms by (auto simp: initialSeries_def Let_def split: if_splits)

lemma initialSeries_total:
  "s_values d \<noteq> [] \<Longrightarrow> \<exists>s. initialSeries lib p d = Inr s"
  by (simp add: initialSeries_def Let_def)

lemma initialRenderData_member:
  assumes "initialRenderData lib p = Inr rs" and "s \<in> set rs"
  shows "\<exists>d \<in> set (p_data p). initialSeries lib p d = Inr s"
proof -
  from assms(1) obtain rs0 where m: "mapE (initialSeries lib p) (p_data p) = Inr rs0"
    and rs: "rs = sort_key rs_size rs0"
    by (auto simp: initialRenderData_def split: sum.splits)
  from assms(2) rs have "s \<in> set rs0" by simp
  with m show ?thesis by (rule mapE_Inr_member)
qed

lemma sizedProps_initialRenderData:
  "initialRenderData exampleLib sizedProps = Inr [sizedRendered]"
  by (simp add: initialRenderData_def sizedProps_def sizedSeries_def sizedRendered_def
      exampleLib_def examplePlot_def initialSeries_def renderValue_def exampleValue_def
      sizeScale_def fontScale_def scaleLinear_def orOne_def Let_def)

subsection \<open>Font size of a value\<close>

text \<open>
  C3, as stated: the font size of every render value is the font scale applied to that
  value's own size. It fails for the series of size 1 whose value has size 2: the
  rendered font size is 10, the font scale of the value's size is 13.
\<close>

theorem C3_counterexample:
  "initialRenderData exampleLib sizedProps = Inr [sizedRendered] \<and>
   map rv_fontSize (rs_values sizedRendered) = [10] \<and>
   map (fontScale sizedProps \<circ> orOne \<circ> v_size) (s_values sizedSeries) = [13]"
  by (simp add: sizedProps_initialRenderData)
     (simp add: sizedRendered_def sizedSeries_def sizedProps_def exampleValue_def
        fontScale_def scaleLinear_def orOne_def)

text \<open>
  C3, amended: every series of \<open>initialRenderData\<close> comes from a series \<open>d\<close> of the input
  with as many values, and the font size of each of its render values is the font scale
  (range \<open>[10, 13]\<close> over the size domain) applied to the size of the series \<open>d\<close>,
  1 when that is absent or 0; all values of a series share this font size.
\<close>

theorem C3_fontSize_of_series_size:
  assumes "initialRenderData lib p = Inr rs" and "s \<in> set rs"
  shows "\<exists>d \<in> set (p_data p).
           rs_key s = s_key d \<and> length (rs_values s) = length (s_values d) \<and>
           (\<forall>v \<in> set (rs_values s). rv_fontSize v = fontScale p (orOne (s_size d)))"
proof -
  from assms obtain d where d: "d \<in> set (p_data p)" and s: "initialSeries lib p d = Inr s"
    by (blast dest: initialRenderData_member)
  have "rs_values s = map (renderValue lib p d) (s_values d)"
    using s by (rule initialSeries_Inr)
  then have "\<forall>v \<in> set (rs_values s). rv_fontSize v = fontScale p (orOne (s_size d))"
    and "length (rs_values s) = length (s_values d)"
    by (auto simp: renderValue_def Let_def)
  moreover have "rs_key s = s_key d"
    using s by (rule initialSeries_Inr)
  ultimately show ?thesis using d by blast
qed

theorem C3_fontSize_of_series_size_witness:
  "initialRenderData exampleLib sizedProps = Inr [sizedRendered] \<and>
   sizedRendered \<in> set [sizedRendered] \<and>
   (\<exists>d \<in> set (p_data sizedProps).
      rs_key sizedRendered = s_key d \<and>
      length (rs_values sizedRendered) = length (s_values d) \<and>
      (\<forall>v \<in> set (rs_values sizedRendered). rv_fontSize v = fontScale sizedProps (orOne (s_size d))))"
  using C3_fontSize_of_series_size [of exampleLib sizedProps "[sizedRendered]" sizedRendered]
    sizedProps_initialRenderData
  by simp

subsection \<open>Labels of a series\<close>

lemma length_makeMidLabels:
  "length (makeMidLabels lib subtle s) =
     (if \<not> isForeground s \<or> length (rs_values s) \<le> 1 \<or> (\<not> isHover s \<and> subtle) then 0
      else length (rs_values s) - 2)"
  by (auto simp: makeMidLabels_def slice_inner_def numeral_2_eq_2)

lemma makeStartLabel_None_iff:
  "makeStartLabel lib subtle s = None \<longleftrightarrow> \<not> isForeground s \<or> length (rs_values s) \<le> 1"
  by (simp add: makeStartLabel_def Let_def)

lemma makeStartLabel_Some:
  "makeStartLabel lib subtle s = Some l \<Longrightarrow> \<not> isEnd l \<and> \<not> isHidden l \<and> isStart l"
  by (auto simp: makeStartLabel_def Let_def split: if_splits)

lemma makeMidLabels_member:
  "l \<in> set (makeMidLabels lib subtle s) \<Longrightarrow> \<not> isEnd l \<and> \<not> isHidden l \<and> isMid l"
  by (auto simp: makeMidLabels_def midLabel_def Let_def split: if_splits)

lemma makeEndLabel_Inr:
  assumes "rs_values s \<noteq> []"
  shows "\<exists>s' e. makeEndLabel lib subtle s = Inr (s', e) \<and> isEnd e \<and> \<not> isHidden e \<and>
           s' = s\<lparr>offsetVector := offsetVector s'\<rparr> \<and>
           l_text e = rs_text s \<and>
           fontSize e = rv_fontSize (last (rs_values s))
                          * (if isForeground s then (if subtle then 1.2 else 1.3) else 1.1) \<and>
           pos e = vec_add (position (last (rs_values s)))
                     (vec_times
                        (vec_normalize lib
                           (if length (rs_values s) > 1
                            then vec_subtract (position (last (rs_values s)))
                                   (position (rs_values s ! (length (rs_values s) - 2)))
                            else Vector2_up))
                        (if length (rs_values s) = 1 then rv_size (last (rs_values s)) + 1 else 5))"
  using assms by (simp add: makeEndLabel_def Let_def)

lemma makeLabels_Inr:
  assumes "makeLabels lib subtle s = Inr s'"
  shows "\<exists>ov a b c d. s' = s\<lparr>offsetVector := ov, startLabel := a, midLabels := b,
                              endLabel := c, allLabels := d\<rparr>"
    and "\<forall>l \<in> set (allLabels s'). \<not> isHidden l"
    and "allLabels s' \<noteq> []"
proof -
  from assms obtain s1 e where e: "makeEndLabel lib subtle s = Inr (s1, e)"
    and s': "s' = s1\<lparr>startLabel := makeStartLabel lib subtle s,
                    midLabels := makeMidLabels lib subtle s,
                    endLabel := Some e,
                    allLabels := (case makeStartLabel lib subtle s of None \<Rightarrow> [] | Some l \<Rightarrow> [l])
                                   @ makeMidLabels lib subtle s @ [e]\<rparr>"
    by (auto simp: makeLabels_def Let_def split: sum.splits)
  from e have ne: "rs_values s \<noteq> []"
    by (auto simp: makeEndLabel_def split: if_splits)
  from makeEndLabel_Inr [OF ne, of lib subtle] e
  have s1: "s1 = s\<lparr>offsetVector := offsetVector s1\<rparr>" and vis: "\<not> isHidden e"
    by auto
  show "\<exists>ov a b c d. s' = s\<lparr>offsetVector := ov, startLabel := a, midLabels := b,
                              endLabel := c, allLabels := d\<rparr>"
    by (subst s', subst s1) blast
  show "\<forall>l \<in> set (allLabels s'). \<not> isHidden l"
    using vis by (auto simp: s' split: option.splits
        dest: makeStartLabel_Some [OF sym] makeStartLabel_Some makeMidLabels_member)
  show "allLabels s' \<noteq> []"
    by (simp add: s')
qed

text \<open>
  C7: a start label is made exactly when the series is in the foreground and has at least
  2 values; the list of mid labels is non-empty exactly when the series is in the
  foreground, has at least 3 values, and is hovered or the chart is not in subtle
  foreground mode; a series with a single value gets no start and no mid label, its
  labels are the one end label.
\<close>

theorem C7_start_and_mid_labels:
  "(makeStartLabel lib subtle s \<noteq> None \<longleftrightarrow> isForeground s \<and> 2 \<le> length (rs_values s)) \<and>
   (makeMidLabels lib subtle s \<noteq> [] \<longleftrightarrow>
      isForeground s \<and> 3 \<le> length (rs_values s) \<and> (isHover s \<or> \<not> subtle)) \<and>
   (length (rs_values s) = 1 \<longrightarrow>
      makeStartLabel lib subtle s = None \<and> makeMidLabels lib subtle s = [] \<and>
      (\<exists>s' e. makeLabels lib subtle s = Inr s' \<and> allLabels s' = [e] \<and> isEnd e))"
proof -
  have start: "makeStartLabel lib subtle s \<noteq> None \<longleftrightarrow> isForeground s \<and> 2 \<le> length (rs_values s)"
    by (auto simp: makeStartLabel_None_iff)
  have "makeMidLabels lib subtle s \<noteq> [] \<longleftrightarrow> 0 < length (makeMidLabels lib subtle s)"
    by simp
  also have "\<dots> \<longleftrightarrow> isForeground s \<and> 3 \<le> length (rs_values s) \<and> (isHover s \<or> \<not> subtle)"
    unfolding length_makeMidLabels by auto
  finally have mid: "makeMidLabels lib subtle s \<noteq> [] \<longleftrightarrow>
      isForeground s \<and> 3 \<le> length (rs_values s) \<and> (isHover s \<or> \<not> subtle)" .
  have single: "makeStartLabel lib subtle s = None \<and> makeMidLabels lib subtle s = [] \<and>
      (\<exists>s' e. makeLabels lib subtle s = Inr s' \<and> allLabels s' = [e] \<and> isEnd e)"
    if one: "length (rs_values s) = 1"
  proof -
    from one have ne: "rs_values s \<noteq> []" by auto
    from one start have s0: "makeStartLabel lib subtle s = None" by auto
    from one mid have m0: "makeMidLabels lib subtle s = []" by auto
    from makeEndLabel_Inr [OF ne, of lib subtle] obtain s' e
      where "makeEndLabel lib subtle s = Inr (s', e)" and "isEnd e" by blast
    with s0 m0 show ?thesis by (simp add: makeLabels_def)
  qed
  from start mid single show ?thesis by blast
qed

theorem C7_start_and_mid_labels_witness:
  "isForeground (exampleRenderSeries True [renderValueAt 0 0, renderValueAt 1 0, renderValueAt 2 0]) \<and>
   makeStartLabel exampleLib False
     (exampleRenderSeries True [renderValueAt 0 0, renderValueAt 1 0, renderValueAt 2 0]) \<noteq> None \<and>
   makeMidLabels exampleLib False
     (exampleRenderSeries True [renderValueAt 0 0, renderValueAt 1 0, renderValueAt 2 0]) \<noteq> [] \<and>
   length (rs_values (exampleRenderSeries True [renderValueAt 0 0])) = 1 \<and>
   makeStartLabel exampleLib False (exampleRenderSeries True [renderValueAt 0 0]) = None \<and>
   makeMidLabels exampleLib False (exampleRenderSeries True [renderValueAt 0 0]) = [] \<and>
   (\<exists>s' e. makeLabels exampleLib False (exampleRenderSeries True [renderValueAt 0 0]) = Inr s' \<and>
           allLabels s' = [e] \<and> isEnd e)"
  using C7_start_and_mid_labels [of exampleLib False
      "exampleRenderSeries True [renderValueAt 0 0, renderValueAt 1 0, renderValueAt 2 0]"]
    C7_start_and_mid_labels [of exampleLib False "exampleRenderSeries True [renderValueAt 0 0]"]
  by (simp add: exampleRenderSeries_def)








subsection \<open>The clamp pass\<close>

lemma clampLabel_frame:
  "clampLabel plot l = l\<lparr>bounds := bounds (clampLabel plot l)\<rparr>"
  by (simp add: clampLabel_def Let_def)

lemma clampLabel_x:
  "b_x (bounds (clampLabel plot l)) =
     (if b_x (bounds l) < b_x plot - 1 then b_x (bounds l) + width (bounds l)
      else if b_x (bounds l) + width (bounds l) > b_x plot + width plot + 1
      then b_x (bounds l) - width (bounds l)
      else b_x (bounds l))"
  by (simp add: clampLabel_def Let_def b_left_def b_right_def)

lemma clampLabel_y:
  "b_y (bounds (clampLabel plot l)) =
     (if b_y (bounds l) < b_y plot - 1 then b_y plot
      else if b_y (bounds l) + height (bounds l) > b_y plot + height plot + 1
      then b_y plot + height plot - height (bounds l)
      else b_y (bounds l))"
  by (simp add: clampLabel_def Let_def b_top_def b_bottom_def)

lemma clampLabel_extent:
  "width (bounds (clampLabel plot l)) = width (bounds l)"
  "height (bounds (clampLabel plot l)) = height (bounds l)"
  by (simp_all add: clampLabel_def Let_def)

lemma clampLabel_isHidden [simp]: "isHidden (clampLabel plot l) = isHidden l"
  by (simp add: clampLabel_def Let_def)

lemma clampLabel_labelPriority [simp]: "labelPriority (clampLabel plot l) = labelPriority l"
  by (simp add: clampLabel_def labelPriority_def Let_def)

lemma clampPass_length [simp]: "length (clampPass plot ls) = length ls"
  by (simp add: clampPass_def)

text \<open>
  A label within the plot widened by the tolerance is left where it is.
\<close>

lemma clampLabel_inside:
  assumes "b_left plot - 1 \<le> b_left (bounds l)" and "b_right (bounds l) \<le> b_right plot + 1"
    and "b_top plot - 1 \<le> b_top (bounds l)" and "b_bottom (bounds l) \<le> b_bottom plot + 1"
  shows "clampLabel plot l = l"
  using assms by (simp add: clampLabel_def Let_def)

text \<open>
  Vertically the pass puts a box that sticks out onto the edge of the plot: a box not
  higher than the plot lies, afterwards, between the upper and the lower edge, up to the
  tolerance.
\<close>

lemma clampLabel_vertical:
  assumes "height (bounds l) \<le> height plot + 1"
  shows "b_top plot - 1 \<le> b_top (bounds (clampLabel plot l))"
    and "b_bottom (bounds (clampLabel plot l)) \<le> b_bottom plot + 1"
  using assms
  unfolding b_top_def b_bottom_def clampLabel_y clampLabel_extent
  by simp_all

subsection \<open>The collision pass\<close>

lemma map_update_same_image:
  "f y = f (xs ! j) \<Longrightarrow> map f (xs[j := y]) = map f xs"
proof (cases "j < length xs")
  case True
  assume "f y = f (xs ! j)"
  with True show ?thesis
    by (simp add: map_update list_update_same_conv)
next
  case False
  then show ?thesis by (simp add: list_update_beyond)
qed

lemma hideLater_frame:
  "map (\<lambda>l. l\<lparr>isHidden := False\<rparr>) (hideLater lib l1 js st) = map (\<lambda>l. l\<lparr>isHidden := False\<rparr>) st"
proof (induction js arbitrary: st)
  case Nil
  then show ?case by simp
next
  case (Cons j js)
  then show ?case
    by (simp add: map_update_same_image)
qed

lemma collide_frame:
  "map (\<lambda>l. l\<lparr>isHidden := False\<rparr>) (collide lib order st) = map (\<lambda>l. l\<lparr>isHidden := False\<rparr>) st"
proof (induction order arbitrary: st)
  case Nil
  then show ?case by simp
next
  case (Cons i rest)
  then show ?case
    by (simp add: hideLater_frame)
qed

lemma frame_length:
  "map (\<lambda>l. l\<lparr>isHidden := False\<rparr>) st' = map (\<lambda>l. l\<lparr>isHidden := False\<rparr>) st \<Longrightarrow> length st' = length st"
  by (metis length_map)

lemma frame_nth:
  assumes "map (\<lambda>l. l\<lparr>isHidden := False\<rparr>) st' = map (\<lambda>l. l\<lparr>isHidden := False\<rparr>) st"
    and "k < length st"
  shows "st' ! k = (st ! k)\<lparr>isHidden := isHidden (st' ! k)\<rparr>"
proof -
  have len: "length st' = length st"
    using assms(1) by (rule frame_length)
  have "map (\<lambda>l. l\<lparr>isHidden := False\<rparr>) st' ! k = map (\<lambda>l. l\<lparr>isHidden := False\<rparr>) st ! k"
    using assms(1) by simp
  with len assms(2) have "(st' ! k)\<lparr>isHidden := False\<rparr> = (st ! k)\<lparr>isHidden := False\<rparr>"
    by simp
  then show ?thesis
    by (cases "st' ! k"; cases "st ! k") simp
qed

lemma hideLater_length [simp]: "length (hideLater lib l1 js st) = length st"
  using hideLater_frame by (rule frame_length)

lemma collide_length [simp]: "length (collide lib order st) = length st"
  using collide_frame by (rule frame_length)

lemma hideLater_bounds:
  "k < length st \<Longrightarrow> bounds (hideLater lib l1 js st ! k) = bounds (st ! k)"
  using frame_nth [OF hideLater_frame, of k st lib l1 js]
  by (metis ScatterLabel.select_convs(4) ScatterLabel.surjective ScatterLabel.update_convs(6))

lemma hideLater_other:
  "k \<notin> set js \<Longrightarrow> hideLater lib l1 js st ! k = st ! k"
  by (induction js arbitrary: st) auto

lemma collide_other:
  "k \<notin> set order \<Longrightarrow> collide lib order st ! k = st ! k"
  by (induction order arbitrary: st) (auto simp: hideLater_other)

lemma hideLater_stays_hidden:
  "isHidden (st ! k) \<Longrightarrow> isHidden (hideLater lib l1 js st ! k)"
proof (induction js arbitrary: st)
  case Nil
  then show ?case by simp
next
  case (Cons j js)
  have "isHidden (st[j := (st ! j)\<lparr>isHidden := True\<rparr>] ! k)"
    using Cons.prems by (cases "j < length st") (auto simp: nth_list_update list_update_beyond)
  with Cons show ?case by simp
qed

lemma collide_stays_hidden:
  "isHidden (st ! k) \<Longrightarrow> isHidden (collide lib order st ! k)"
  by (induction order arbitrary: st) (auto simp: hideLater_stays_hidden)

lemma hideLater_hides:
  assumes "j \<in> set js" and "j < length st"
    and "intersects lib (bounds l1) (bounds (st ! j))"
  shows "isHidden (hideLater lib l1 js st ! j)"
  using assms
proof (induction js arbitrary: st)
  case Nil
  then show ?case by simp
next
  case (Cons j' js)
  show ?case
  proof (cases "j' = j")
    case True
    show ?thesis
    proof (cases "isHidden (st ! j)")
      case True
      then show ?thesis by (rule hideLater_stays_hidden)
    next
      case False
      have "isHidden (st[j := (st ! j)\<lparr>isHidden := True\<rparr>] ! j)"
        using Cons.prems(2) by simp
      then have "isHidden (hideLater lib l1 js (st[j := (st ! j)\<lparr>isHidden := True\<rparr>]) ! j)"
        by (rule hideLater_stays_hidden)
      with False \<open>j' = j\<close> Cons.prems(3) show ?thesis by simp
    qed
  next
    case False
    with Cons.prems have j: "j \<in> set js" by simp
    let ?st' = "st[j' := (st ! j')\<lparr>isHidden := True\<rparr>]"
    have "isHidden (hideLater lib l1 js st ! j)"
      using j Cons.prems(2,3) by (rule Cons.IH)
    moreover have "isHidden (hideLater lib l1 js ?st' ! j)"
    proof (rule Cons.IH [OF j])
      show "j < length ?st'" using Cons.prems(2) by simp
      show "intersects lib (bounds l1) (bounds (?st' ! j))"
        using Cons.prems(3) False by simp
    qed
    ultimately show ?thesis by simp
  qed
qed

text \<open>
  Of two addresses in the order of the outer loop, the earlier one, if its label is
  visible at the end, has hidden the later one when their bounds intersect.
\<close>

lemma collide_visible_hides_later:
  assumes "a < b" and "b < length order" and "order ! a < length st" and "order ! b < length st"
    and "\<not> isHidden (collide lib order st ! (order ! a))"
    and "intersects lib (bounds (st ! (order ! a))) (bounds (st ! (order ! b)))"
  shows "isHidden (collide lib order st ! (order ! b))"
  using assms
proof (induction order arbitrary: st a b)
  case Nil
  then show ?case by simp
next
  case (Cons i rest)
  from Cons.prems(1) obtain b' where b: "b = Suc b'" by (cases b) auto
  with Cons.prems have b': "b' < length rest" and jb: "(i # rest) ! b = rest ! b'"
    by auto
  let ?j = "rest ! b'"
  show ?case
  proof (cases a)
    case 0
    then have ia: "(i # rest) ! a = i" by simp
    have vis: "\<not> isHidden (st ! i)"
      using Cons.prems(5) collide_stays_hidden [of st i lib "i # rest"] ia by auto
    have "isHidden (hideLater lib (st ! i) rest st ! ?j)"
    proof (rule hideLater_hides)
      show "?j \<in> set rest" using b' by simp
      show "?j < length st" using Cons.prems(4) jb by simp
      show "intersects lib (bounds (st ! i)) (bounds (st ! ?j))"
        using Cons.prems(6) ia jb by simp
    qed
    then have "isHidden (collide lib rest (hideLater lib (st ! i) rest st) ! ?j)"
      by (rule collide_stays_hidden)
    with vis jb show ?thesis by simp
  next
    case (Suc a')
    then have ia: "(i # rest) ! a = rest ! a'" by simp
    let ?st' = "if isHidden (st ! i) then st else hideLater lib (st ! i) rest st"
    have step: "collide lib (i # rest) st = collide lib rest ?st'"
      by simp
    have "isHidden (collide lib rest ?st' ! (rest ! b'))"
    proof (rule Cons.IH)
      show "a' < b'" using Cons.prems(1) b Suc by simp
      show "b' < length rest" by (rule b')
      show "rest ! a' < length ?st'" using Cons.prems(3) ia by simp
      show "rest ! b' < length ?st'" using Cons.prems(4) jb by simp
      show "\<not> isHidden (collide lib rest ?st' ! (rest ! a'))"
        using Cons.prems(5) ia step by simp
      show "intersects lib (bounds (?st' ! (rest ! a'))) (bounds (?st' ! (rest ! b')))"
        using Cons.prems(3,4,6) ia jb by (simp add: hideLater_bounds)
    qed
    with step jb show ?thesis by simp
  qed
qed

text \<open>
  A label that the inner loop hides is one of those it visits, and meets \<open>l1\<close>.
\<close>

lemma hideLater_hidden_cause:
  assumes "\<not> isHidden (st ! j)" and "isHidden (hideLater lib l1 js st ! j)"
  shows "j \<in> set js \<and> intersects lib (bounds l1) (bounds (st ! j))"
  using assms
proof (induction js arbitrary: st)
  case Nil
  then show ?case by simp
next
  case (Cons j' js)
  let ?st' = "st[j' := (st ! j')\<lparr>isHidden := True\<rparr>]"
  show ?case
  proof (cases "j' = j")
    case True
    show ?thesis
    proof (cases "intersects lib (bounds l1) (bounds (st ! j))")
      case True
      with \<open>j' = j\<close> show ?thesis by simp
    next
      case False
      with True Cons.prems have "isHidden (hideLater lib l1 js st ! j)"
        by simp
      with Cons.prems(1) have "j \<in> set js \<and> intersects lib (bounds l1) (bounds (st ! j))"
        by (rule Cons.IH)
      with False show ?thesis by simp
    qed
  next
    case False
    then have same: "?st' ! j = st ! j"
      by simp
    have "isHidden (hideLater lib l1 js st ! j) \<or> isHidden (hideLater lib l1 js ?st' ! j)"
      using Cons.prems(2) by (simp split: if_splits)
    then show ?thesis
    proof
      assume "isHidden (hideLater lib l1 js st ! j)"
      with Cons.prems(1) have "j \<in> set js \<and> intersects lib (bounds l1) (bounds (st ! j))"
        by (rule Cons.IH)
      then show ?thesis by simp
    next
      assume h: "isHidden (hideLater lib l1 js ?st' ! j)"
      have "\<not> isHidden (?st' ! j)"
        using Cons.prems(1) same by simp
      then have "j \<in> set js \<and> intersects lib (bounds l1) (bounds (?st' ! j))"
        using h by (rule Cons.IH)
      with same show ?thesis by simp
    qed
  qed
qed

text \<open>
  A label that the outer loop hides meets the label at an earlier address of the
  order, and that label is visible at the end.
\<close>

lemma collide_hidden_cause:
  assumes "distinct order" and "\<forall>k \<in> set order. k < length st"
    and "j < length st" and "\<not> isHidden (st ! j)" and "isHidden (collide lib order st ! j)"
  shows "\<exists>a b. a < b \<and> b < length order \<and> order ! b = j \<and>
           \<not> isHidden (collide lib order st ! (order ! a)) \<and>
           intersects lib (bounds (st ! (order ! a))) (bounds (st ! j))"
  using assms
proof (induction order arbitrary: st)
  case Nil
  then show ?case by simp
next
  case (Cons i rest)
  from Cons.prems(1) have i: "i \<notin> set rest" and d: "distinct rest"
    by simp_all
  from Cons.prems(2) have il: "i < length st" and rl: "\<forall>k \<in> set rest. k < length st"
    by simp_all
  let ?st' = "if isHidden (st ! i) then st else hideLater lib (st ! i) rest st"
  have step: "collide lib (i # rest) st = collide lib rest ?st'"
    by simp
  have len: "length ?st' = length st"
    by simp
  show ?case
  proof (cases "isHidden (?st' ! j)")
    case True
    with Cons.prems(4) have vis: "\<not> isHidden (st ! i)"
      and hid: "isHidden (hideLater lib (st ! i) rest st ! j)"
      by (auto split: if_splits)
    from Cons.prems(4) hid have "j \<in> set rest"
      and meets: "intersects lib (bounds (st ! i)) (bounds (st ! j))"
      using hideLater_hidden_cause by blast+
    then obtain b where b: "b < length rest" "rest ! b = j"
      unfolding in_set_conv_nth by blast
    have "collide lib (i # rest) st ! i = st ! i"
      using i by (simp add: collide_other hideLater_other)
    with vis have "\<not> isHidden (collide lib (i # rest) st ! ((i # rest) ! 0))"
      by simp
    moreover have "(0::nat) < Suc b" and "Suc b < length (i # rest)" and "(i # rest) ! Suc b = j"
      using b by simp_all
    moreover have "intersects lib (bounds (st ! ((i # rest) ! 0))) (bounds (st ! j))"
      using meets by simp
    ultimately show ?thesis by blast
  next
    case False
    have "\<exists>a b. a < b \<and> b < length rest \<and> rest ! b = j \<and>
           \<not> isHidden (collide lib rest ?st' ! (rest ! a)) \<and>
           intersects lib (bounds (?st' ! (rest ! a))) (bounds (?st' ! j))"
    proof (rule Cons.IH [OF d])
      show "\<forall>k \<in> set rest. k < length ?st'" using rl by simp
      show "j < length ?st'" using Cons.prems(3) by simp
      show "\<not> isHidden (?st' ! j)" by (rule False)
      show "isHidden (collide lib rest ?st' ! j)"
        using Cons.prems(5) step by simp
    qed
    then obtain a b where ab: "a < b" "b < length rest" "rest ! b = j"
      and vis: "\<not> isHidden (collide lib rest ?st' ! (rest ! a))"
      and meets: "intersects lib (bounds (?st' ! (rest ! a))) (bounds (?st' ! j))"
      by blast
    from ab have "rest ! a \<in> set rest"
      by simp
    with rl have al: "rest ! a < length st"
      by blast
    have "bounds (?st' ! (rest ! a)) = bounds (st ! (rest ! a))"
      and "bounds (?st' ! j) = bounds (st ! j)"
      using al Cons.prems(3) by (simp_all add: hideLater_bounds)
    with meets have "intersects lib (bounds (st ! ((i # rest) ! Suc a))) (bounds (st ! j))"
      by simp
    moreover have "\<not> isHidden (collide lib (i # rest) st ! ((i # rest) ! Suc a))"
      using vis step by simp
    moreover have "Suc a < Suc b" and "Suc b < length (i # rest)" and "(i # rest) ! Suc b = j"
      using ab by simp_all
    ultimately show ?thesis by blast
  qed
qed

lemma labelsByPriority_set [simp]: "set (labelsByPriority ls) = {0 ..< length ls}"
  by (simp add: labelsByPriority_def)

lemma labelsByPriority_distinct [simp]: "distinct (labelsByPriority ls)"
  by (simp add: labelsByPriority_def)

lemma labelsByPriority_length [simp]: "length (labelsByPriority ls) = length ls"
  by (simp add: labelsByPriority_def)

lemma labelsByPriority_sorted:
  "sorted (map (\<lambda>i. - labelPriority (ls ! i)) (labelsByPriority ls))"
  by (simp add: labelsByPriority_def)

text \<open>A label of strictly higher priority comes earlier in the order.\<close>

lemma labelsByPriority_position:
  assumes "i < length ls" and "j < length ls"
    and "labelPriority (ls ! j) < labelPriority (ls ! i)"
  obtains a b where "a < b" and "b < length ls"
    and "labelsByPriority ls ! a = i" and "labelsByPriority ls ! b = j"
proof -
  let ?order = "labelsByPriority ls"
  from assms(1) have "i \<in> set ?order" by simp
  then obtain a where a: "a < length ?order" "?order ! a = i"
    unfolding in_set_conv_nth by blast
  from assms(2) have "j \<in> set ?order" by simp
  then obtain b where b: "b < length ?order" "?order ! b = j"
    unfolding in_set_conv_nth by blast
  have "a < b"
  proof (rule ccontr)
    assume "\<not> a < b"
    then have "b \<le> a" by simp
    with a(1) have "map (\<lambda>i. - labelPriority (ls ! i)) ?order ! b
        \<le> map (\<lambda>i. - labelPriority (ls ! i)) ?order ! a"
      using labelsByPriority_sorted [of ls] by (simp add: sorted_iff_nth_mono del: labelsByPriority_length)
    with a b have "- labelPriority (ls ! j) \<le> - labelPriority (ls ! i)"
      by simp
    with assms(3) show False by simp
  qed
  with a b show thesis
    using that by simp
qed

text \<open>
  Along the order the priority does not increase.
\<close>

lemma labelsByPriority_earlier:
  assumes "a < b" and "b < length ls"
  shows "labelPriority (ls ! (labelsByPriority ls ! b)) \<le> labelPriority (ls ! (labelsByPriority ls ! a))"
proof -
  let ?keys = "map (\<lambda>i. - labelPriority (ls ! i)) (labelsByPriority ls)"
  have "sorted ?keys"
    by (rule labelsByPriority_sorted)
  moreover have "a \<le> b" and "b < length ?keys"
    using assms by simp_all
  ultimately have "?keys ! a \<le> ?keys ! b"
    by (rule sorted_nth_mono)
  with assms show ?thesis
    by simp
qed

lemma collisionPass_length [simp]: "length (collisionPass lib ls) = length ls"
  by (simp add: collisionPass_def)

lemma collisionPass_frame:
  assumes "i < length ls"
  shows "collisionPass lib ls ! i = (ls ! i)\<lparr>isHidden := isHidden (collisionPass lib ls ! i)\<rparr>"
  unfolding collisionPass_def using collide_frame assms by (rule frame_nth)

lemma collisionPass_first_untouched:
  assumes "ls \<noteq> []"
  shows "collisionPass lib ls ! hd (labelsByPriority ls) = ls ! hd (labelsByPriority ls)"
proof -
  from assms have "labelsByPriority ls \<noteq> []"
    by (metis labelsByPriority_length length_0_conv)
  then obtain i rest where o: "labelsByPriority ls = i # rest"
    by (cases "labelsByPriority ls") auto
  with labelsByPriority_distinct [of ls] have "i \<notin> set rest" by simp
  then show ?thesis
    unfolding collisionPass_def o by (simp add: collide_other hideLater_other)
qed

text \<open>
  A label that the collision pass hides meets another label that is visible at the end
  and whose priority is not lower than its own.
\<close>

lemma collisionPass_hidden_cause:
  assumes "j < length ls" and "\<not> isHidden (ls ! j)" and "isHidden (collisionPass lib ls ! j)"
  shows "\<exists>k < length ls. k \<noteq> j \<and> \<not> isHidden (collisionPass lib ls ! k) \<and>
           labelPriority (ls ! j) \<le> labelPriority (ls ! k) \<and>
           intersects lib (bounds (ls ! k)) (bounds (ls ! j))"
proof -
  let ?order = "labelsByPriority ls"
  have "\<exists>a b. a < b \<and> b < length ?order \<and> ?order ! b = j \<and>
           \<not> isHidden (collide lib ?order ls ! (?order ! a)) \<and>
           intersects lib (bounds (ls ! (?order ! a))) (bounds (ls ! j))"
    using assms by (intro collide_hidden_cause) (simp_all add: collisionPass_def)
  then obtain a b where ab: "a < b" "b < length ?order" "?order ! b = j"
    and vis: "\<not> isHidden (collide lib ?order ls ! (?order ! a))"
    and meets: "intersects lib (bounds (ls ! (?order ! a))) (bounds (ls ! j))"
    by blast
  let ?k = "?order ! a"
  from ab have "?k \<in> set ?order"
    by (simp del: labelsByPriority_set)
  then have k: "?k < length ls"
    by simp
  have "distinct ?order"
    by simp
  moreover from ab have "a < length ?order" and "b < length ?order" and "a \<noteq> b"
    by simp_all
  ultimately have "?order ! a \<noteq> ?order ! b"
    by (simp only: nth_eq_iff_index_eq) simp
  then have ne: "?k \<noteq> j"
    using ab(3) by simp
  from ab have "labelPriority (ls ! (?order ! b)) \<le> labelPriority (ls ! ?k)"
    by (intro labelsByPriority_earlier) simp_all
  with ab have pr: "labelPriority (ls ! j) \<le> labelPriority (ls ! ?k)"
    by simp
  from k ne vis pr meets show ?thesis
    unfolding collisionPass_def by blast
qed

text \<open>The priority of a label, as one sum.\<close>

lemma labelPriority_sum:
  "labelPriority l =
     fontSize l + (if ref_isHover (series l) then 10000 else 0)
       + (if ref_isFocus (series l) then 1000 else 0) + (if isEnd l then 100 else 0)"
  by (simp add: labelPriority_def Let_def)

lemma labelPriority_exampleLabel [simp]: "labelPriority (exampleLabel fs x y) = fs"
  by (simp add: labelPriority_def exampleLabel_def)

lemma chainLabels_order: "labelsByPriority chainLabels = [0, 1, 2]"
  by (simp add: labelsByPriority_def chainLabels_def upt_rec)

lemma intersects_exampleLabel [simp]:
  "intersects exampleLib (bounds (exampleLabel fs x y)) (bounds (exampleLabel fs' x' y')) \<longleftrightarrow>
     x' \<le> x + 10 \<and> x \<le> x' + 10 \<and> y' \<le> y + 10 \<and> y \<le> y' + 10"
  by (simp add: exampleLib_def rectsIntersect_def exampleLabel_def b_left_def b_right_def b_top_def b_bottom_def)

lemma isHidden_exampleLabel [simp]: "\<not> isHidden (exampleLabel fs x y)"
  by (simp add: exampleLabel_def)

lemma chainLabels_collisionPass:
  "collisionPass exampleLib chainLabels =
     [exampleLabel 13 0 0, (exampleLabel 12 8 0)\<lparr>isHidden := True\<rparr>, exampleLabel 11 16 0]"
  unfolding collisionPass_def chainLabels_order
  by (simp add: chainLabels_def)

text \<open>
  C1, as stated: after the collision pass the member of lower priority of every
  intersecting pair is hidden and the member of higher priority is not. In \<open>chainLabels\<close>
  the first label hides the second; the second, being hidden, is skipped by the outer
  loop and does not hide the third, which intersects it and has lower priority.
\<close>

theorem C1_counterexample:
  "map isHidden (collisionPass exampleLib chainLabels) = [False, True, False] \<and>
   labelPriority (chainLabels ! 2) < labelPriority (chainLabels ! 1) \<and>
   intersects exampleLib (bounds (chainLabels ! 1)) (bounds (chainLabels ! 2))"
  by (simp add: chainLabels_collisionPass) (simp add: chainLabels_def)

text \<open>
  C1, amended: with the priority of a label its font size plus 10000 for a hovered
  series, plus 1000 for a focused series, plus 100 for an end label (\<open>labelPriority_sum\<close>),
  for two labels \<open>i\<close> and \<open>j\<close> of which \<open>i\<close> has the higher priority and whose bounds
  intersect: if \<open>i\<close> is not hidden after the collision pass then \<open>j\<close> is, so the two are
  never both visible; if the pass hides \<open>i\<close>, then a third label, of priority at least that
  of \<open>i\<close>, meets \<open>i\<close> and is visible after the pass; and if the pass hides \<open>j\<close>, then some
  other label, of priority at least that of \<open>j\<close>, meets \<open>j\<close> and is visible after the
  pass. So the pass never hides the label of higher priority for the sake of the pair,
  only for a third label that outranks or equals it and stays visible; it then hides
  nothing itself.
\<close>

theorem C1_collision_of_a_pair:
  assumes "i < length ls" and "j < length ls"
    and "labelPriority (ls ! j) < labelPriority (ls ! i)"
    and "intersects lib (bounds (ls ! i)) (bounds (ls ! j))"
  shows "(\<not> isHidden (collisionPass lib ls ! i) \<longrightarrow> isHidden (collisionPass lib ls ! j)) \<and>
         (\<not> isHidden (ls ! i) \<and> isHidden (collisionPass lib ls ! i) \<longrightarrow>
            (\<exists>k < length ls. k \<noteq> i \<and> k \<noteq> j \<and> \<not> isHidden (collisionPass lib ls ! k) \<and>
               labelPriority (ls ! i) \<le> labelPriority (ls ! k) \<and>
               intersects lib (bounds (ls ! k)) (bounds (ls ! i)))) \<and>
         (\<not> isHidden (ls ! j) \<and> isHidden (collisionPass lib ls ! j) \<longrightarrow>
            (\<exists>k < length ls. k \<noteq> j \<and> \<not> isHidden (collisionPass lib ls ! k) \<and>
               labelPriority (ls ! j) \<le> labelPriority (ls ! k) \<and>
               intersects lib (bounds (ls ! k)) (bounds (ls ! j))))"
proof (intro conjI impI)
  assume vis: "\<not> isHidden (collisionPass lib ls ! i)"
  from assms(1-3) obtain a b where ab: "a < b" "b < length ls"
    and a: "labelsByPriority ls ! a = i" and b: "labelsByPriority ls ! b = j"
    by (rule labelsByPriority_position)
  have "isHidden (collide lib (labelsByPriority ls) ls ! (labelsByPriority ls ! b))"
  proof (rule collide_visible_hides_later [OF ab(1)])
    show "b < length (labelsByPriority ls)" using ab(2) by simp
    show "labelsByPriority ls ! a < length ls" using a assms(1) by simp
    show "labelsByPriority ls ! b < length ls" using b assms(2) by simp
    show "\<not> isHidden (collide lib (labelsByPriority ls) ls ! (labelsByPriority ls ! a))"
      using vis a by (simp add: collisionPass_def)
    show "intersects lib (bounds (ls ! (labelsByPriority ls ! a)))
            (bounds (ls ! (labelsByPriority ls ! b)))"
      using assms(4) a b by simp
  qed
  then show "isHidden (collisionPass lib ls ! j)"
    by (simp add: collisionPass_def b)
next
  assume "\<not> isHidden (ls ! i) \<and> isHidden (collisionPass lib ls ! i)"
  with assms(1) have "\<exists>k < length ls. k \<noteq> i \<and> \<not> isHidden (collisionPass lib ls ! k) \<and>
      labelPriority (ls ! i) \<le> labelPriority (ls ! k) \<and>
      intersects lib (bounds (ls ! k)) (bounds (ls ! i))"
    by (intro collisionPass_hidden_cause) simp_all
  then obtain k where k: "k < length ls" "k \<noteq> i" "\<not> isHidden (collisionPass lib ls ! k)"
    "labelPriority (ls ! i) \<le> labelPriority (ls ! k)"
    "intersects lib (bounds (ls ! k)) (bounds (ls ! i))"
    by blast
  from k(4) assms(3) have "k \<noteq> j"
    by auto
  with k show "\<exists>k < length ls. k \<noteq> i \<and> k \<noteq> j \<and> \<not> isHidden (collisionPass lib ls ! k) \<and>
      labelPriority (ls ! i) \<le> labelPriority (ls ! k) \<and>
      intersects lib (bounds (ls ! k)) (bounds (ls ! i))"
    by blast
next
  assume "\<not> isHidden (ls ! j) \<and> isHidden (collisionPass lib ls ! j)"
  with assms(2) show "\<exists>k < length ls. k \<noteq> j \<and> \<not> isHidden (collisionPass lib ls ! k) \<and>
      labelPriority (ls ! j) \<le> labelPriority (ls ! k) \<and>
      intersects lib (bounds (ls ! k)) (bounds (ls ! j))"
    by (intro collisionPass_hidden_cause) simp_all
qed

theorem C1_collision_of_a_pair_witness:
  "(0::nat) < length chainLabels \<and> (1::nat) < length chainLabels \<and> (2::nat) < length chainLabels \<and>
   labelPriority (chainLabels ! 1) < labelPriority (chainLabels ! 0) \<and>
   intersects exampleLib (bounds (chainLabels ! 0)) (bounds (chainLabels ! 1)) \<and>
   \<not> isHidden (collisionPass exampleLib chainLabels ! 0) \<and>
   isHidden (collisionPass exampleLib chainLabels ! 1) \<and>
   labelPriority (chainLabels ! 2) < labelPriority (chainLabels ! 1) \<and>
   intersects exampleLib (bounds (chainLabels ! 1)) (bounds (chainLabels ! 2)) \<and>
   \<not> isHidden (chainLabels ! 1) \<and>
   (\<exists>k < length chainLabels. k \<noteq> 1 \<and> k \<noteq> 2 \<and>
      \<not> isHidden (collisionPass exampleLib chainLabels ! k) \<and>
      labelPriority (chainLabels ! 1) \<le> labelPriority (chainLabels ! k) \<and>
      intersects exampleLib (bounds (chainLabels ! k)) (bounds (chainLabels ! 1)))"
proof -
  have facts: "(0::nat) < length chainLabels" "(1::nat) < length chainLabels"
    "(2::nat) < length chainLabels"
    "labelPriority (chainLabels ! 1) < labelPriority (chainLabels ! 0)"
    "intersects exampleLib (bounds (chainLabels ! 0)) (bounds (chainLabels ! 1))"
    "labelPriority (chainLabels ! 2) < labelPriority (chainLabels ! 1)"
    "intersects exampleLib (bounds (chainLabels ! 1)) (bounds (chainLabels ! 2))"
    "\<not> isHidden (chainLabels ! 1)"
    by (simp_all add: chainLabels_def)
  have after: "\<not> isHidden (collisionPass exampleLib chainLabels ! 0)"
    "isHidden (collisionPass exampleLib chainLabels ! 1)"
    by (simp_all add: chainLabels_collisionPass)
  from C1_collision_of_a_pair [OF facts(1,2,4,5)] after
  have first: "isHidden (collisionPass exampleLib chainLabels ! 1)"
    by blast
  from C1_collision_of_a_pair [OF facts(2,3,6,7)] facts(8) after(2)
  have second: "\<exists>k < length chainLabels. k \<noteq> 1 \<and> k \<noteq> 2 \<and>
      \<not> isHidden (collisionPass exampleLib chainLabels ! k) \<and>
      labelPriority (chainLabels ! 1) \<le> labelPriority (chainLabels ! k) \<and>
      intersects exampleLib (bounds (chainLabels ! k)) (bounds (chainLabels ! 1))"
    by blast
  from facts after(1) first second show ?thesis
    by (intro conjI)
qed

text \<open>
  C4, as stated: the resolver leaves the bounds of every label as they were. The clamp
  pass moves the box of \<open>farLabel\<close> from -100 to -90.
\<close>

theorem C4_counterexample:
  "map (b_x \<circ> bounds) [farLabel] = [- 100] \<and>
   map (b_x \<circ> bounds) (resolveCollisions exampleLib examplePlot [farLabel]) = [- 90]"
  by (simp add: resolveCollisions_def clampPass_def collisionPass_def labelsByPriority_def
      clampLabel_def farLabel_def exampleLabel_def examplePlot_def
      b_left_def b_right_def b_top_def b_bottom_def)

text \<open>
  C4, amended: the resolver writes only the bounds and the \<open>isHidden\<close> flag of a label,
  and of the bounds only the place, not the extent: the text, the font size, the anchor,
  the owning series and the kind of the label are as before. The clamp pass writes only
  the bounds, the collision pass only \<open>isHidden\<close>.
\<close>

theorem C4_resolver_frame:
  "length (resolveCollisions lib plot ls) = length ls \<and>
   (\<forall>i < length ls.
      resolveCollisions lib plot ls ! i =
        (ls ! i)\<lparr>bounds := bounds (resolveCollisions lib plot ls ! i),
                 isHidden := isHidden (resolveCollisions lib plot ls ! i)\<rparr> \<and>
      width (bounds (resolveCollisions lib plot ls ! i)) = width (bounds (ls ! i)) \<and>
      height (bounds (resolveCollisions lib plot ls ! i)) = height (bounds (ls ! i)) \<and>
      clampPass plot ls ! i = (ls ! i)\<lparr>bounds := bounds (clampPass plot ls ! i)\<rparr> \<and>
      collisionPass lib ls ! i = (ls ! i)\<lparr>isHidden := isHidden (collisionPass lib ls ! i)\<rparr>)"
proof (intro conjI allI impI)
  show "length (resolveCollisions lib plot ls) = length ls"
    by (simp add: resolveCollisions_def)
next
  fix i assume i: "i < length ls"
  let ?c = "clampPass plot ls" and ?r = "resolveCollisions lib plot ls"
  define h where "h = isHidden (?r ! i)"
  define bb where "bb = bounds (?c ! i)"
  have "clampLabel plot (ls ! i) = (ls ! i)\<lparr>bounds := bounds (clampLabel plot (ls ! i))\<rparr>"
    by (rule clampLabel_frame)
  then have c: "?c ! i = (ls ! i)\<lparr>bounds := bb\<rparr>"
    using i by (simp add: clampPass_def bb_def)
  have "i < length ?c"
    using i by simp
  then have "collisionPass lib ?c ! i = (?c ! i)\<lparr>isHidden := isHidden (collisionPass lib ?c ! i)\<rparr>"
    by (rule collisionPass_frame)
  then have r: "?r ! i = (?c ! i)\<lparr>isHidden := h\<rparr>"
    by (simp add: resolveCollisions_def h_def)
  have e: "?r ! i = (ls ! i)\<lparr>bounds := bb, isHidden := h\<rparr>"
    by (simp add: r c)
  have b: "bounds (?r ! i) = bb"
    by (simp add: e)
  show "?c ! i = (ls ! i)\<lparr>bounds := bounds (?c ! i)\<rparr>"
    unfolding bb_def [symmetric] by (rule c)
  show "?r ! i = (ls ! i)\<lparr>bounds := bounds (?r ! i), isHidden := isHidden (?r ! i)\<rparr>"
    unfolding b h_def [symmetric] by (rule e)
  have "width bb = width (bounds (ls ! i))" and "height bb = height (bounds (ls ! i))"
    using i by (simp_all add: bb_def clampPass_def clampLabel_extent)
  then show "width (bounds (?r ! i)) = width (bounds (ls ! i))"
    and "height (bounds (?r ! i)) = height (bounds (ls ! i))"
    by (simp_all add: b)
  show "collisionPass lib ls ! i = (ls ! i)\<lparr>isHidden := isHidden (collisionPass lib ls ! i)\<rparr>"
    using i by (rule collisionPass_frame)
qed

theorem C4_resolver_frame_witness:
  "(1::nat) < length chainLabels \<and>
   resolveCollisions exampleLib examplePlot chainLabels ! 1 =
     (chainLabels ! 1)\<lparr>bounds := bounds (resolveCollisions exampleLib examplePlot chainLabels ! 1),
                       isHidden := isHidden (resolveCollisions exampleLib examplePlot chainLabels ! 1)\<rparr>"
proof -
  have "(1::nat) < length chainLabels"
    by (simp add: chainLabels_def)
  with C4_resolver_frame [of exampleLib examplePlot chainLabels] show ?thesis
    by blast
qed

lemma insort_key_cong_on:
  "f x = g x \<Longrightarrow> (\<And>y. y \<in> set ys \<Longrightarrow> f y = g y) \<Longrightarrow> insort_key f x ys = insort_key g x ys"
  by (induction ys) auto

lemma sort_key_cong_on:
  "(\<And>x. x \<in> set xs \<Longrightarrow> f x = g x) \<Longrightarrow> sort_key f xs = sort_key g xs"
proof (induction xs)
  case Nil
  then show ?case by simp
next
  case (Cons x xs)
  then have "sort_key f xs = sort_key g xs" by simp
  moreover have "insort_key f x (sort_key g xs) = insort_key g x (sort_key g xs)"
    by (rule insort_key_cong_on) (simp_all add: Cons.prems)
  ultimately show ?case by simp
qed

lemma labelPriority_isHidden_update [simp]:
  "labelPriority (l\<lparr>isHidden := h\<rparr>) = labelPriority l"
  by (simp add: labelPriority_def)

lemma collisionPass_labelPriority:
  assumes "i < length ls"
  shows "labelPriority (collisionPass lib ls ! i) = labelPriority (ls ! i)"
proof -
  define h where "h = isHidden (collisionPass lib ls ! i)"
  have "collisionPass lib ls ! i = (ls ! i)\<lparr>isHidden := h\<rparr>"
    unfolding h_def using assms by (rule collisionPass_frame)
  then show ?thesis by simp
qed

lemma labelsByPriority_cong:
  assumes "length ls' = length ls"
    and "\<And>i. i < length ls \<Longrightarrow> labelPriority (ls' ! i) = labelPriority (ls ! i)"
  shows "labelsByPriority ls' = labelsByPriority ls"
  unfolding labelsByPriority_def assms(1)
  by (rule sort_key_cong_on) (simp add: assms(2))

lemma labelsByPriority_resolveCollisions:
  "labelsByPriority (resolveCollisions lib plot ls) = labelsByPriority ls"
proof (rule labelsByPriority_cong)
  show "length (resolveCollisions lib plot ls) = length ls"
    by (simp add: resolveCollisions_def)
next
  fix i assume "i < length ls"
  then show "labelPriority (resolveCollisions lib plot ls ! i) = labelPriority (ls ! i)"
    by (simp add: resolveCollisions_def collisionPass_labelPriority clampPass_def)
qed

text \<open>The first label of the priority order stays as visible as it was.\<close>

lemma resolveCollisions_first:
  assumes "ls \<noteq> []"
  shows "isHidden (resolveCollisions lib plot ls ! hd (labelsByPriority ls))
           = isHidden (ls ! hd (labelsByPriority ls))"
proof -
  let ?c = "clampPass plot ls"
  have o: "labelsByPriority ?c = labelsByPriority ls"
    by (rule labelsByPriority_cong) (simp_all add: clampPass_def)
  from assms have "labelsByPriority ls \<noteq> []"
    by (metis labelsByPriority_length length_0_conv)
  then have "hd (labelsByPriority ls) \<in> set (labelsByPriority ls)"
    by (rule hd_in_set)
  then have k: "hd (labelsByPriority ls) < length ls"
    by simp
  from assms have "?c \<noteq> []"
    by (simp add: clampPass_def)
  then have "collisionPass lib ?c ! hd (labelsByPriority ?c) = ?c ! hd (labelsByPriority ?c)"
    by (rule collisionPass_first_untouched)
  then have "collisionPass lib ?c ! hd (labelsByPriority ls) = ?c ! hd (labelsByPriority ls)"
    unfolding o .
  then show ?thesis
    using k by (simp add: resolveCollisions_def clampPass_def)
qed

subsection \<open>The stages of \<open>renderData\<close>\<close>

lemma setFlags_fields [simp]:
  "rs_key (setFlags hks fks s) = rs_key s"
  "rs_values (setFlags hks fks s) = rs_values s"
  "isHover (setFlags hks fks s) \<longleftrightarrow> rs_key s \<in> set hks"
  "isFocus (setFlags hks fks s) \<longleftrightarrow> rs_key s \<in> set fks"
  "isForeground (setFlags hks fks s) \<longleftrightarrow> rs_key s \<in> set hks \<or> rs_key s \<in> set fks"
  "rs_size (setFlags hks fks s) = (if rs_key s \<in> set hks then rs_size s + 1 else rs_size s)"
  by (simp_all add: setFlags_def Let_def)

lemma writeBack_length [simp]: "length (writeBack rd ls) = length rd"
  by (induction rd arbitrary: ls) (simp_all add: Let_def)

lemma writeBack_labels:
  "length ls = length (concat (map allLabels rd)) \<Longrightarrow> concat (map allLabels (writeBack rd ls)) = ls"
proof (induction rd arbitrary: ls)
  case Nil
  then show ?case by simp
next
  case (Cons s rd)
  from Cons.prems have "length (drop (length (allLabels s)) ls) = length (concat (map allLabels rd))"
    by simp
  then have "concat (map allLabels (writeBack rd (drop (length (allLabels s)) ls)))
      = drop (length (allLabels s)) ls"
    by (rule Cons.IH)
  then show ?case
    by (simp add: Let_def)
qed

lemma writeBack_map:
  assumes "\<And>s ov a b c d. f (s\<lparr>offsetVector := ov, startLabel := a, midLabels := b,
                               endLabel := c, allLabels := d\<rparr>) = f s"
  shows "map f (writeBack rd ls) = map f rd"
proof (induction rd arbitrary: ls)
  case Nil
  then show ?case by simp
next
  case (Cons s rd)
  have "f (s\<lparr>offsetVector := offsetVector s, startLabel := a, midLabels := b,
            endLabel := c, allLabels := d\<rparr>) = f s" for a b c d
    by (rule assms)
  then have "f (s\<lparr>startLabel := a, midLabels := b, endLabel := c, allLabels := d\<rparr>) = f s"
    for a b c d
    by simp
  with Cons show ?case
    by (simp add: Let_def)
qed

lemma renderData_Inr:
  assumes "renderData lib p hk = Inr rd"
  obtains initial rd2 where "initialRenderData lib p = Inr initial"
    and "mapE (makeLabels lib (isSubtleForeground p))
           (map (setFlags (hoverKeys p hk) (focusKeys p)) (sort_key (\<lambda>d. - rs_size d) initial))
         = Inr rd2"
    and "rd = writeBack rd2 (resolveCollisions lib (p_bounds p) (concat (map allLabels rd2)))"
  using assms by (auto simp: renderData_def Let_def split: sum.splits)

text \<open>
  A field that the label loop and the two passes do not write has, in the result, the
  value it has after the first loop of \<open>renderData\<close>.
\<close>

lemma renderData_fields:
  assumes rd: "renderData lib p hk = Inr rd"
    and inv: "\<And>s ov a b c d. f (s\<lparr>offsetVector := ov, startLabel := a, midLabels := b,
                                    endLabel := c, allLabels := d\<rparr>) = f s"
  shows "\<exists>initial. initialRenderData lib p = Inr initial \<and>
           map f rd = map (\<lambda>s. f (setFlags (hoverKeys p hk) (focusKeys p) s))
                        (sort_key (\<lambda>d. - rs_size d) initial)"
proof -
  from rd obtain initial rd2 where i: "initialRenderData lib p = Inr initial"
    and m: "mapE (makeLabels lib (isSubtleForeground p))
           (map (setFlags (hoverKeys p hk) (focusKeys p)) (sort_key (\<lambda>d. - rs_size d) initial))
         = Inr rd2"
    and w: "rd = writeBack rd2 (resolveCollisions lib (p_bounds p) (concat (map allLabels rd2)))"
    by (rule renderData_Inr)
  have "map f rd = map f rd2"
    unfolding w using inv by (rule writeBack_map)
  also have "\<dots> = map f (map (setFlags (hoverKeys p hk) (focusKeys p))
                           (sort_key (\<lambda>d. - rs_size d) initial))"
    using m
  proof (rule mapE_map_rel)
    fix x y assume "makeLabels lib (isSubtleForeground p) x = Inr y"
    then obtain ov a b c d where "y = x\<lparr>offsetVector := ov, startLabel := a, midLabels := b,
                              endLabel := c, allLabels := d\<rparr>"
      using makeLabels_Inr(1) by blast
    then show "f y = f x" by (simp only: inv)
  qed
  finally have "map f rd = map (\<lambda>s. f (setFlags (hoverKeys p hk) (focusKeys p) s))
                      (sort_key (\<lambda>d. - rs_size d) initial)"
    by (simp add: comp_def)
  with i show ?thesis by blast
qed

lemma renderData_labels:
  assumes "renderData lib p hk = Inr rd"
  obtains ls where "\<forall>l \<in> set ls. \<not> isHidden l"
    and "concat (map allLabels rd) = resolveCollisions lib (p_bounds p) ls"
proof -
  from assms obtain initial rd2 where
    m: "mapE (makeLabels lib (isSubtleForeground p))
           (map (setFlags (hoverKeys p hk) (focusKeys p)) (sort_key (\<lambda>d. - rs_size d) initial))
         = Inr rd2"
    and w: "rd = writeBack rd2 (resolveCollisions lib (p_bounds p) (concat (map allLabels rd2)))"
    by (rule renderData_Inr)
  let ?ls = "concat (map allLabels rd2)"
  have "\<forall>l \<in> set (allLabels s'). \<not> isHidden l" if "s' \<in> set rd2" for s'
  proof -
    from m that obtain s where "makeLabels lib (isSubtleForeground p) s = Inr s'"
      by (blast dest: mapE_Inr_member)
    then show ?thesis by (rule makeLabels_Inr(2))
  qed
  then have "\<forall>l \<in> set ?ls. \<not> isHidden l"
    by auto
  moreover have "concat (map allLabels rd) = resolveCollisions lib (p_bounds p) ?ls"
    unfolding w by (rule writeBack_labels) (simp add: resolveCollisions_def)
  ultimately show thesis by (rule that)
qed

lemma renderData_labels_nonempty:
  assumes "renderData lib p hk = Inr rd" and "rd \<noteq> []"
  shows "concat (map allLabels rd) \<noteq> []"
proof -
  from assms(1) obtain initial rd2 where
    m: "mapE (makeLabels lib (isSubtleForeground p))
           (map (setFlags (hoverKeys p hk) (focusKeys p)) (sort_key (\<lambda>d. - rs_size d) initial))
         = Inr rd2"
    and w: "rd = writeBack rd2 (resolveCollisions lib (p_bounds p) (concat (map allLabels rd2)))"
    by (rule renderData_Inr)
  from assms(2) w have "rd2 \<noteq> []"
    by auto
  then have "hd rd2 \<in> set rd2"
    by (rule hd_in_set)
  with m obtain s where "makeLabels lib (isSubtleForeground p) s = Inr (hd rd2)"
    by (blast dest: mapE_Inr_member)
  then have "allLabels (hd rd2) \<noteq> []"
    by (rule makeLabels_Inr(3))
  with \<open>hd rd2 \<in> set rd2\<close> have "concat (map allLabels rd2) \<noteq> []"
    by auto
  moreover have "concat (map allLabels rd) = resolveCollisions lib (p_bounds p) (concat (map allLabels rd2))"
    unfolding w by (rule writeBack_labels) (simp add: resolveCollisions_def)
  ultimately show ?thesis
    by (metis length_0_conv resolveCollisions_def collisionPass_length clampPass_length)
qed

text \<open>\<open>renderData\<close> returns whenever every series of the input has a value.\<close>

lemma renderData_total:
  assumes "\<forall>d \<in> set (p_data p). s_values d \<noteq> []"
  shows "\<exists>rd. renderData lib p hk = Inr rd"
proof -
  have "\<exists>rs. mapE (initialSeries lib p) (p_data p) = Inr rs"
    using assms by (intro mapE_total initialSeries_total) simp
  then obtain initial where i: "initialRenderData lib p = Inr initial"
    by (auto simp: initialRenderData_def)
  let ?rd1 = "map (setFlags (hoverKeys p hk) (focusKeys p)) (sort_key (\<lambda>d. - rs_size d) initial)"
  have "\<exists>s'. makeLabels lib (isSubtleForeground p) s = Inr s'" if "s \<in> set ?rd1" for s
  proof -
    from that obtain s0 where s0: "s0 \<in> set initial"
      and s: "s = setFlags (hoverKeys p hk) (focusKeys p) s0"
      by auto
    from i s0 obtain d where "initialSeries lib p d = Inr s0"
      by (blast dest: initialRenderData_member)
    then have "rs_values s0 \<noteq> []"
      by (auto simp: initialSeries_def Let_def split: if_splits)
    then have "rs_values s \<noteq> []"
      by (simp add: s)
    from makeEndLabel_Inr [OF this, of lib "isSubtleForeground p"] show ?thesis
      by (auto simp: makeLabels_def Let_def)
  qed
  then have "\<exists>rd2. mapE (makeLabels lib (isSubtleForeground p)) ?rd1 = Inr rd2"
    by (rule mapE_total)
  with i show ?thesis
    by (auto simp: renderData_def Let_def)
qed

text \<open>The keys of the result of \<open>renderData\<close> are the keys of the input.\<close>

lemma renderData_keys:
  assumes "renderData lib p hk = Inr rd"
  shows "set (map rs_key rd) = set (map s_key (p_data p))"
proof -
  have "\<exists>initial. initialRenderData lib p = Inr initial \<and>
      map rs_key rd = map (\<lambda>s. rs_key (setFlags (hoverKeys p hk) (focusKeys p) s))
                        (sort_key (\<lambda>d. - rs_size d) initial)"
    using assms by (rule renderData_fields) simp
  then obtain initial where i: "initialRenderData lib p = Inr initial"
    and m: "map rs_key rd = map rs_key (sort_key (\<lambda>d. - rs_size d) initial)"
    by auto
  from i obtain rs0 where m0: "mapE (initialSeries lib p) (p_data p) = Inr rs0"
    and rs: "initial = sort_key rs_size rs0"
    by (auto simp: initialRenderData_def split: sum.splits)
  from m0 have "map rs_key rs0 = map s_key (p_data p)"
    by (rule mapE_map_rel) (rule initialSeries_Inr)
  then have "set (map s_key (p_data p)) = rs_key ` set rs0"
    by (metis set_map)
  also have "\<dots> = set (map rs_key rd)"
    unfolding m rs by simp
  finally show ?thesis by simp
qed

lemma twoProps_renders:
  "renderData exampleLib twoProps hk = Inr (rendered (renderData exampleLib twoProps hk))"
proof -
  have "\<exists>rd. renderData exampleLib twoProps hk = Inr rd"
    by (rule renderData_total) (simp add: twoProps_def smallSeries_def bigSeries_def)
  then show ?thesis
    by (auto simp: rendered_def)
qed

lemma sqrt_small_big: "sqrt (10 / pi) < sqrt (1000 / pi)"
  by (simp add: divide_strict_right_mono)

lemma twoProps_initial:
  "initialRenderData exampleLib twoProps = Inr initial \<Longrightarrow>
     map (\<lambda>s. (rs_key s, rs_size s)) (sort_key (\<lambda>d. - rs_size d) initial)
       = [(''B'', sqrt (1000 / pi)), (''A'', sqrt (10 / pi))]"
  using sqrt_small_big
  by (auto simp: initialRenderData_def twoProps_def smallSeries_def bigSeries_def
      exampleLib_def examplePlot_def initialSeries_def renderValue_def exampleValue_def
      sizeScale_def scaleLinear_def orOne_def Let_def)

lemma twoProps_view:
  "map (\<lambda>s. (rs_key s, rs_size s, isHover s, isForeground s))
     (rendered (renderData exampleLib twoProps hk))
   = map (\<lambda>(k, z). (k, if k \<in> set (hoverKeys twoProps hk) then z + 1 else z,
                      k \<in> set (hoverKeys twoProps hk), k \<in> set (hoverKeys twoProps hk)))
       [(''B'', sqrt (1000 / pi)), (''A'', sqrt (10 / pi))]"
proof -
  let ?f = "\<lambda>s. (rs_key s, rs_size s, isHover s, isForeground s)"
  let ?rd = "rendered (renderData exampleLib twoProps hk)"
  let ?set = "setFlags (hoverKeys twoProps hk) (focusKeys twoProps)"
  have "\<exists>initial. initialRenderData exampleLib twoProps = Inr initial \<and>
      map ?f ?rd = map (\<lambda>s. ?f (?set s)) (sort_key (\<lambda>d. - rs_size d) initial)"
    using twoProps_renders by (rule renderData_fields) simp
  then obtain initial where i: "initialRenderData exampleLib twoProps = Inr initial"
    and m: "map ?f ?rd = map (\<lambda>s. ?f (?set s)) (sort_key (\<lambda>d. - rs_size d) initial)"
    by blast
  have "focusKeys twoProps = []"
    by (simp add: focusKeys_def twoProps_def)
  then have "map (\<lambda>s. ?f (?set s)) (sort_key (\<lambda>d. - rs_size d) initial)
      = map (\<lambda>(k, z). (k, if k \<in> set (hoverKeys twoProps hk) then z + 1 else z,
                      k \<in> set (hoverKeys twoProps hk), k \<in> set (hoverKeys twoProps hk)))
          (map (\<lambda>s. (rs_key s, rs_size s)) (sort_key (\<lambda>d. - rs_size d) initial))"
    by (simp add: comp_def)
  with m show ?thesis
    by (simp only: twoProps_initial [OF i])
qed

lemma twoProps_hovered:
  "map (\<lambda>s. (rs_key s, rs_size s, isHover s, isForeground s))
     (rendered (renderData exampleLib twoProps (Some ''B'')))
   = [(''B'', sqrt (1000 / pi) + 1, True, True), (''A'', sqrt (10 / pi), False, False)]"
  by (simp add: twoProps_view) (simp add: hoverKeys_def twoProps_def)

text \<open>
  C10: when \<open>renderData\<close> returns and the flat list of the labels of its series is not
  empty, the label that comes first in the order of descending priority is not hidden;
  so at least one label is visible.
\<close>

theorem C10_first_by_priority_visible:
  assumes "renderData lib p hk = Inr rd" and "concat (map allLabels rd) \<noteq> []"
  shows "\<not> isHidden (concat (map allLabels rd) ! hd (labelsByPriority (concat (map allLabels rd)))) \<and>
         (\<exists>l \<in> set (concat (map allLabels rd)). \<not> isHidden l)"
proof -
  let ?final = "concat (map allLabels rd)"
  from assms(1) obtain ls where fresh: "\<forall>l \<in> set ls. \<not> isHidden l"
    and final: "?final = resolveCollisions lib (p_bounds p) ls"
    by (rule renderData_labels)
  have len: "length ?final = length ls"
    by (simp add: final resolveCollisions_def)
  with assms(2) have ne: "ls \<noteq> []" by auto
  have o: "labelsByPriority ?final = labelsByPriority ls"
    unfolding final by (rule labelsByPriority_resolveCollisions)
  let ?k = "hd (labelsByPriority ls)"
  from ne have "labelsByPriority ls \<noteq> []"
    by (metis labelsByPriority_length length_0_conv)
  then have "?k \<in> set (labelsByPriority ls)"
    by (rule hd_in_set)
  then have k: "?k < length ls" by simp
  with fresh have "\<not> isHidden (ls ! ?k)" by simp
  with resolveCollisions_first [OF ne, of lib "p_bounds p"]
  have vis: "\<not> isHidden (?final ! ?k)"
    by (simp add: final)
  moreover from k len have "?k < length ?final"
    by simp
  then have "?final ! ?k \<in> set ?final"
    by (rule nth_mem)
  ultimately show ?thesis
    unfolding o by blast
qed

theorem C10_first_by_priority_visible_witness:
  "renderData exampleLib twoProps None = Inr (rendered (renderData exampleLib twoProps None)) \<and>
   concat (map allLabels (rendered (renderData exampleLib twoProps None))) \<noteq> [] \<and>
   \<not> isHidden (concat (map allLabels (rendered (renderData exampleLib twoProps None)))
       ! hd (labelsByPriority (concat (map allLabels (rendered (renderData exampleLib twoProps None))))))"
proof -
  let ?rd = "rendered (renderData exampleLib twoProps None)"
  have "length ?rd = 2"
    using arg_cong [OF twoProps_view [of None], of length] by simp
  then have "?rd \<noteq> []"
    by auto
  with twoProps_renders have ne: "concat (map allLabels ?rd) \<noteq> []"
    by (rule renderData_labels_nonempty)
  from C10_first_by_priority_visible [OF twoProps_renders ne] twoProps_renders ne
  show ?thesis
    by simp
qed

text \<open>
  C9: every series of the result of \<open>renderData\<close> has values, the render values of a
  series of the input with its key; it is hovered exactly when its key is among the
  hover keys; its size is the pixel size of its last value plus 1 when it is hovered,
  and exactly the pixel size of its last value when it is not.
\<close>

theorem C9_series_size:
  assumes "renderData lib p hk = Inr rd" and "s \<in> set rd"
  shows "rs_values s \<noteq> [] \<and>
         (isHover s \<longleftrightarrow> rs_key s \<in> set (hoverKeys p hk)) \<and>
         (isHover s \<longrightarrow> rs_size s = rv_size (last (rs_values s)) + 1) \<and>
         (\<not> isHover s \<longrightarrow> rs_size s = rv_size (last (rs_values s))) \<and>
         (\<exists>d \<in> set (p_data p).
            rs_key s = s_key d \<and> rs_values s = map (renderValue lib p d) (s_values d))"
proof -
  let ?f = "\<lambda>s. (rs_key s, rs_values s, rs_size s, isHover s)"
  let ?set = "setFlags (hoverKeys p hk) (focusKeys p)"
  have "\<exists>initial. initialRenderData lib p = Inr initial \<and>
      map ?f rd = map (\<lambda>s. ?f (?set s)) (sort_key (\<lambda>d. - rs_size d) initial)"
    using assms(1) by (rule renderData_fields) simp
  then obtain initial where i: "initialRenderData lib p = Inr initial"
    and m: "map ?f rd = map (\<lambda>s. ?f (?set s)) (sort_key (\<lambda>d. - rs_size d) initial)"
    by blast
  from assms(2) have "?f s \<in> set (map ?f rd)"
    by simp
  then obtain s0 where s0: "s0 \<in> set initial" and eq: "?f s = ?f (?set s0)"
    unfolding m by auto
  from i s0 obtain d where d: "d \<in> set (p_data p)" and init: "initialSeries lib p d = Inr s0"
    by (blast dest: initialRenderData_member)
  note facts = initialSeries_Inr [OF init]
  from eq have key: "rs_key s = rs_key s0" and vals: "rs_values s = rs_values s0"
    and hov: "isHover s \<longleftrightarrow> rs_key s0 \<in> set (hoverKeys p hk)"
    and sz: "rs_size s = (if rs_key s0 \<in> set (hoverKeys p hk) then rs_size s0 + 1 else rs_size s0)"
    by simp_all
  have "rs_values s \<noteq> []"
    using facts(2,3) vals by simp
  moreover have "isHover s \<longleftrightarrow> rs_key s \<in> set (hoverKeys p hk)"
    using hov key by simp
  moreover have "isHover s \<longrightarrow> rs_size s = rv_size (last (rs_values s)) + 1"
    using hov sz facts(4) vals by simp
  moreover have "\<not> isHover s \<longrightarrow> rs_size s = rv_size (last (rs_values s))"
    using hov sz facts(4) vals by simp
  moreover have "\<exists>d \<in> set (p_data p).
      rs_key s = s_key d \<and> rs_values s = map (renderValue lib p d) (s_values d)"
    using d facts(1,2) key vals by auto
  ultimately show ?thesis by blast
qed

theorem C9_series_size_witness:
  "renderData exampleLib twoProps (Some ''B'')
     = Inr (rendered (renderData exampleLib twoProps (Some ''B''))) \<and>
   rendered (renderData exampleLib twoProps (Some ''B'')) ! 0
     \<in> set (rendered (renderData exampleLib twoProps (Some ''B''))) \<and>
   isHover (rendered (renderData exampleLib twoProps (Some ''B'')) ! 0) \<and>
   rs_size (rendered (renderData exampleLib twoProps (Some ''B'')) ! 0) = sqrt (1000 / pi) + 1 \<and>
   rs_size (rendered (renderData exampleLib twoProps (Some ''B'')) ! 0)
     = rv_size (last (rs_values (rendered (renderData exampleLib twoProps (Some ''B'')) ! 0))) + 1 \<and>
   rendered (renderData exampleLib twoProps (Some ''B'')) ! 1
     \<in> set (rendered (renderData exampleLib twoProps (Some ''B''))) \<and>
   \<not> isHover (rendered (renderData exampleLib twoProps (Some ''B'')) ! 1) \<and>
   rs_size (rendered (renderData exampleLib twoProps (Some ''B'')) ! 1)
     = rv_size (last (rs_values (rendered (renderData exampleLib twoProps (Some ''B'')) ! 1)))"
proof -
  let ?rd = "rendered (renderData exampleLib twoProps (Some ''B''))"
  have len: "length ?rd = 2"
    using arg_cong [OF twoProps_hovered, of length] by simp
  have "map (\<lambda>s. (rs_key s, rs_size s, isHover s, isForeground s)) ?rd ! 0
      = (''B'', sqrt (1000 / pi) + 1, True, True)"
    and "map (\<lambda>s. (rs_key s, rs_size s, isHover s, isForeground s)) ?rd ! 1
      = (''A'', sqrt (10 / pi), False, False)"
    by (simp_all only: twoProps_hovered) simp_all
  with len have v: "isHover (?rd ! 0)" "rs_size (?rd ! 0) = sqrt (1000 / pi) + 1"
    "\<not> isHover (?rd ! 1)"
    by simp_all
  from len have mem: "?rd ! 0 \<in> set ?rd" "?rd ! 1 \<in> set ?rd"
    by simp_all
  from C9_series_size [OF twoProps_renders mem(1)] C9_series_size [OF twoProps_renders mem(2)]
    v mem twoProps_renders
  show ?thesis
    by simp
qed

text \<open>The first sort of \<open>renderData\<close> puts the series in descending order of size.\<close>

lemma sort_descending:
  "sorted_wrt (\<lambda>earlier later. rs_size later \<le> rs_size earlier) (sort_key (\<lambda>d. - rs_size d) rs)"
proof -
  have "sorted (map (\<lambda>d. - rs_size d) (sort_key (\<lambda>d. - rs_size d) rs))"
    by (rule sorted_sort_key)
  then show ?thesis
    by (simp add: sorted_map)
qed

text \<open>
  C2, as stated: the background series are in ascending order of size. Of the two series
  of \<open>twoProps\<close>, both in the background, the larger one comes first.
\<close>

theorem C2_counterexample:
  "renderData exampleLib twoProps None = Inr (rendered (renderData exampleLib twoProps None)) \<and>
   map rs_size (backgroundGroups (rendered (renderData exampleLib twoProps None)))
     = [sqrt (1000 / pi), sqrt (10 / pi)] \<and>
   sqrt (10 / pi) < sqrt (1000 / pi)"
proof -
  let ?rd = "rendered (renderData exampleLib twoProps None)"
  have v: "map (\<lambda>s. (rs_key s, rs_size s, isHover s, isForeground s)) ?rd
      = [(''B'', sqrt (1000 / pi), False, False), (''A'', sqrt (10 / pi), False, False)]"
    by (simp add: twoProps_view) (simp add: hoverKeys_def twoProps_def)
  have "map rs_size (backgroundGroups ?rd)
      = map (fst \<circ> snd) (filter (\<lambda>x. \<not> snd (snd (snd x)))
          (map (\<lambda>s. (rs_key s, rs_size s, isHover s, isForeground s)) ?rd))"
    by (simp add: backgroundGroups_def filter_map comp_def)
  also have "\<dots> = [sqrt (1000 / pi), sqrt (10 / pi)]"
    unfolding v by simp
  finally show ?thesis
    using twoProps_renders sqrt_small_big by simp
qed

text \<open>
  C2, amended: when the marker area of the last value of every series is not negative (no
  size is \<open>NaN\<close>), the background series of the result of \<open>renderData\<close> are in descending
  order of size: a series drawn later is at most as large as any series drawn earlier,
  so that smaller markers sit on top of larger ones.
\<close>

theorem C2_background_descending:
  assumes "renderData lib p hk = Inr rd"
    and "\<forall>d \<in> set (p_data p). 0 \<le> sizeScale p (orOne (v_size (last (s_values d))))"
  shows "sorted_wrt (\<lambda>earlier later. rs_size later \<le> rs_size earlier) (backgroundGroups rd)"
proof -
  let ?f = "\<lambda>s. (rs_size s, isForeground s)"
  let ?set = "setFlags (hoverKeys p hk) (focusKeys p)"
  have "\<exists>initial. initialRenderData lib p = Inr initial \<and>
      map ?f rd = map (\<lambda>s. ?f (?set s)) (sort_key (\<lambda>d. - rs_size d) initial)"
    using assms(1) by (rule renderData_fields) simp
  then obtain initial where
    m: "map ?f rd = map (\<lambda>s. ?f (?set s)) (sort_key (\<lambda>d. - rs_size d) initial)"
    by blast
  let ?rd0 = "sort_key (\<lambda>d. - rs_size d) initial"
  let ?bg = "\<lambda>s. \<not> isForeground (?set s)"
  have "map rs_size (backgroundGroups rd) = map fst (filter (\<lambda>x. \<not> snd x) (map ?f rd))"
    by (simp add: backgroundGroups_def filter_map comp_def)
  also have "\<dots> = map (\<lambda>s. rs_size (?set s)) (filter ?bg ?rd0)"
    unfolding m by (simp add: filter_map comp_def)
  also have "\<dots> = map rs_size (filter ?bg ?rd0)"
    by (rule map_cong) auto
  finally have eq: "map rs_size (backgroundGroups rd) = map rs_size (filter ?bg ?rd0)" .
  have "sorted_wrt (\<lambda>earlier later. rs_size later \<le> rs_size earlier) (filter ?bg ?rd0)"
    using sort_descending by (rule sorted_wrt_filter)
  then have "sorted_wrt (\<lambda>x y. y \<le> x) (map rs_size (filter ?bg ?rd0))"
    by (simp add: sorted_wrt_map)
  then have "sorted_wrt (\<lambda>x y. y \<le> x) (map rs_size (backgroundGroups rd))"
    by (simp only: eq)
  then show ?thesis
    by (simp add: sorted_wrt_map)
qed

theorem C2_background_descending_witness:
  "renderData exampleLib twoProps None = Inr (rendered (renderData exampleLib twoProps None)) \<and>
   p_data twoProps = [smallSeries, bigSeries] \<and>
   0 \<le> sizeScale twoProps (orOne (v_size (last (s_values smallSeries)))) \<and>
   0 \<le> sizeScale twoProps (orOne (v_size (last (s_values bigSeries)))) \<and>
   length (backgroundGroups (rendered (renderData exampleLib twoProps None))) = 2 \<and>
   sorted_wrt (\<lambda>earlier later. rs_size later \<le> rs_size earlier)
     (backgroundGroups (rendered (renderData exampleLib twoProps None)))"
proof -
  let ?rd = "rendered (renderData exampleLib twoProps None)"
  have data: "p_data twoProps = [smallSeries, bigSeries]"
    by (simp add: twoProps_def)
  have areas: "0 \<le> sizeScale twoProps (orOne (v_size (last (s_values smallSeries))))"
    "0 \<le> sizeScale twoProps (orOne (v_size (last (s_values bigSeries))))"
    by (simp_all add: twoProps_def smallSeries_def bigSeries_def exampleValue_def
        sizeScale_def scaleLinear_def orOne_def)
  have v: "map (\<lambda>s. (rs_key s, rs_size s, isHover s, isForeground s)) ?rd
      = [(''B'', sqrt (1000 / pi), False, False), (''A'', sqrt (10 / pi), False, False)]"
    by (simp add: twoProps_view) (simp add: hoverKeys_def twoProps_def)
  have "length (backgroundGroups ?rd)
      = length (filter (\<lambda>x. \<not> snd (snd (snd x)))
          (map (\<lambda>s. (rs_key s, rs_size s, isHover s, isForeground s)) ?rd))"
    by (simp add: backgroundGroups_def filter_map comp_def)
  then have two: "length (backgroundGroups ?rd) = 2"
    unfolding v by simp
  have "\<forall>d \<in> set (p_data twoProps). 0 \<le> sizeScale twoProps (orOne (v_size (last (s_values d))))"
    using areas by (simp add: data)
  with twoProps_renders
  have "sorted_wrt (\<lambda>earlier later. rs_size later \<le> rs_size earlier) (backgroundGroups ?rd)"
    by (rule C2_background_descending)
  with twoProps_renders data areas two show ?thesis
    by (intro conjI)
qed

lemma sqrt_10000: "sqrt 10000 = 100"
  by (rule real_sqrt_unique) simp_all

lemma edgeProps_flagged:
  "initialRenderData exampleLib edgeProps = Inr [edgeSeries\<lparr>isFocus := False, isForeground := False\<rparr>]"
  by (simp add: initialRenderData_def edgeProps_def edgeData_def edgeSeries_def
      exampleLib_def examplePlot_def initialSeries_def renderValue_def exampleValue_def
      sizeScale_def fontScale_def scaleLinear_def orOne_def Let_def)

lemma edgeSeries_flags:
  "setFlags (hoverKeys edgeProps None) (focusKeys edgeProps)
     (edgeSeries\<lparr>isFocus := False, isForeground := False\<rparr>) = edgeSeries"
  by (simp add: setFlags_def hoverKeys_def focusKeys_def edgeProps_def edgeSeries_def Let_def)

lemma edgeSeries_labels:
  "makeLabels exampleLib False edgeSeries
     = Inr (edgeSeries\<lparr>offsetVector := \<lparr>vec_x = 100, vec_y = 0\<rparr>, startLabel := Some edgeLabel,
              midLabels := [], endLabel := Some edgeEndLabel,
              allLabels := [edgeLabel, edgeEndLabel]\<rparr>)"
  by (simp add: makeLabels_def makeStartLabel_def makeMidLabels_def makeEndLabel_def
      edgeSeries_def edgeLabel_def edgeEndLabel_def exampleLib_def euclidNormalize_def
      seriesRef_def slice_inner_def vec_add_def vec_subtract_def vec_times_def sqrt_10000 Let_def)

lemma edgeLabels_clamped:
  "clampPass examplePlot [edgeLabel, edgeEndLabel]
     = [edgeLabel\<lparr>bounds := \<lparr>b_x = - 3, b_y = 100, width = 18, height = 9\<rparr>\<rparr>, edgeEndLabel]"
  by (simp add: clampPass_def clampLabel_def edgeLabel_def edgeEndLabel_def examplePlot_def
      b_left_def b_right_def b_top_def b_bottom_def)

lemma edgeLabels_resolved:
  "resolveCollisions exampleLib examplePlot [edgeLabel, edgeEndLabel]
     = [edgeLabel\<lparr>bounds := \<lparr>b_x = - 3, b_y = 100, width = 18, height = 9\<rparr>\<rparr>, edgeEndLabel]"
  unfolding resolveCollisions_def edgeLabels_clamped
  by (simp add: collisionPass_def labelsByPriority_def labelPriority_def edgeLabel_def
      edgeEndLabel_def exampleLib_def rectsIntersect_def
      b_left_def b_right_def b_top_def b_bottom_def Let_def)

text \<open>
  The result of \<open>renderData\<close> for \<open>edgeProps\<close>, stage by stage: the first loop, the labels,
  the clamp pass, the collision pass.
\<close>

lemma edgeProps_rendered:
  "renderData exampleLib edgeProps None
     = Inr [edgeSeries\<lparr>offsetVector := \<lparr>vec_x = 100, vec_y = 0\<rparr>,
              startLabel := Some (edgeLabel\<lparr>bounds := \<lparr>b_x = - 3, b_y = 100, width = 18, height = 9\<rparr>\<rparr>),
              midLabels := [], endLabel := Some edgeEndLabel,
              allLabels := [edgeLabel\<lparr>bounds := \<lparr>b_x = - 3, b_y = 100, width = 18, height = 9\<rparr>\<rparr>,
                            edgeEndLabel]\<rparr>]"
proof -
  have b: "p_bounds edgeProps = examplePlot" and s: "\<not> isSubtleForeground edgeProps"
    by (simp_all add: edgeProps_def isSubtleForeground_def focusKeys_def)
  show ?thesis
    unfolding renderData_def edgeProps_flagged
    by (simp add: edgeSeries_flags s edgeSeries_labels b edgeLabels_resolved)
qed

text \<open>
  C5: clamping labels that were clamped moves none of them. The clamp pass is there to
  make the labels fit inside the plot, and vertically it puts a box onto the edge
  (\<open>clampLabel_vertical\<close>); horizontally it moves a box by its own width. For the focused
  series of \<open>edgeProps\<close>, whose first point lies on the left edge of the plot (at 0),
  the start label is made with its box from -21 to -3. In the result of \<open>renderData\<close>
  the label is visible with its box from -3 to 15, still beyond the left edge by more
  than the tolerance of 1; clamping the labels of the result once more moves the box
  again, to 15.
\<close>

theorem C5_clamp_moves_again:
  "b_left (p_bounds edgeProps) = 0 \<and>
   map (map (\<lambda>l. (l_text l, isHidden l, b_left (bounds l), b_right (bounds l))) \<circ> allLabels)
     (rendered (renderData exampleLib edgeProps None))
     = [[(''2000'', False, - 3, 15), (''Foo'', False, 105, 249 / 2)]] \<and>
   map (\<lambda>l. (l_text l, b_left (bounds l), b_right (bounds l)))
     (clampPass (p_bounds edgeProps)
        (concat (map allLabels (rendered (renderData exampleLib edgeProps None)))))
     = [(''2000'', 15, 33), (''Foo'', 105, 249 / 2)]"
proof -
  have b: "p_bounds edgeProps = examplePlot"
    by (simp add: edgeProps_def)
  show ?thesis
    unfolding edgeProps_rendered rendered_def b
    by (simp add: clampPass_def clampLabel_def edgeLabel_def edgeEndLabel_def examplePlot_def
      b_left_def b_right_def b_top_def b_bottom_def)
qed

subsection \<open>The hover key\<close>

lemma onMouseMove_Inr:
  assumes "onMouseMove lib c mouse = Inr c'"
  shows "props c' = props c"
    and "hoverKey c' = None \<or> hoverKey c' \<in> set (map (Some \<circ> s_key) (p_data (props c)))"
proof -
  from assms obtain rd where rd: "renderData lib (props c) (hoverKey c) = Inr rd"
    and hk: "hoverKey c' =
      (case sort_key (\<lambda>s. undefinedLast (seriesDistance lib (props c) mouse s)) rd of
         [] \<Rightarrow> None
       | closestSeries # _ \<Rightarrow> Some (rs_key closestSeries))"
    and p: "props c' = props c"
    by (auto simp: onMouseMove_def Let_def split: sum.splits)
  show "props c' = props c" by (rule p)
  let ?sorted = "sort_key (\<lambda>s. undefinedLast (seriesDistance lib (props c) mouse s)) rd"
  show "hoverKey c' = None \<or> hoverKey c' \<in> set (map (Some \<circ> s_key) (p_data (props c)))"
  proof (cases ?sorted)
    case Nil
    with hk show ?thesis by simp
  next
    case (Cons s rest)
    then have "s \<in> set ?sorted" by simp
    then have "rs_key s \<in> set (map rs_key rd)" by simp
    then have "rs_key s \<in> set (map s_key (p_data (props c)))"
      by (simp only: renderData_keys [OF rd])
    with hk Cons show ?thesis by auto
  qed
qed

text \<open>With a single series in the data, a mouse move hovers it.\<close>

lemma onMouseMove_single:
  assumes "p_data (props c) = [d]" and "s_values d \<noteq> []"
  shows "\<exists>c'. onMouseMove lib c mouse = Inr c' \<and> hoverKey c' = Some (s_key d) \<and> props c' = props c"
proof -
  have "\<exists>rd. renderData lib (props c) (hoverKey c) = Inr rd"
    by (rule renderData_total) (simp add: assms)
  then obtain rd where rd: "renderData lib (props c) (hoverKey c) = Inr rd" ..
  have "\<exists>initial. initialRenderData lib (props c) = Inr initial \<and>
      map rs_key rd = map (\<lambda>s. rs_key (setFlags (hoverKeys (props c) (hoverKey c)) (focusKeys (props c)) s))
                        (sort_key (\<lambda>d. - rs_size d) initial)"
    using rd by (rule renderData_fields) simp
  then obtain initial where i: "initialRenderData lib (props c) = Inr initial"
    and m: "map rs_key rd = map rs_key (sort_key (\<lambda>d. - rs_size d) initial)"
    by auto
  from i obtain rs0 where m0: "mapE (initialSeries lib (props c)) (p_data (props c)) = Inr rs0"
    and rs: "initial = sort_key rs_size rs0"
    by (auto simp: initialRenderData_def split: sum.splits)
  from m0 have "map rs_key rs0 = map s_key (p_data (props c))"
    by (rule mapE_map_rel) (rule initialSeries_Inr)
  then have "map rs_key rs0 = [s_key d]"
    by (simp add: assms)
  then obtain s0 where "rs0 = [s0]" and "rs_key s0 = s_key d"
    by auto
  with m rs have "map rs_key rd = [s_key d]"
    by simp
  then obtain s where s: "rd = [s]" "rs_key s = s_key d"
    by auto
  obtain c' where c': "onMouseMove lib c mouse = Inr c'"
    unfolding onMouseMove_def rd Let_def by simp
  then have "hoverKey c' = Some (s_key d)" and "props c' = props c"
    unfolding onMouseMove_def rd s(1) Let_def using s(2) by auto
  with c' show ?thesis
    by blast
qed

lemma run_Cons: "run lib c (ev # evs) = run lib (step lib c ev) evs"
  by (simp add: run_def)

text \<open>
  A step keeps the hover key absent or the key of a series, unless it is a change of
  the props that removes the hovered series.
\<close>

lemma step_valid:
  assumes valid: "hoverKey c = None \<or> hoverKey c \<in> set (map (Some \<circ> s_key) (p_data (props c)))"
    and kept: "\<And>p'. ev = SetProps p' \<Longrightarrow>
                 hoverKey c = None \<or> hoverKey c \<in> set (map (Some \<circ> s_key) (p_data p'))"
  shows "hoverKey (step lib c ev) = None \<or>
         hoverKey (step lib c ev) \<in> set (map (Some \<circ> s_key) (p_data (props (step lib c ev))))"
proof (cases ev)
  case (MouseMove mouse)
  show ?thesis
  proof (cases "onMouseMove lib c mouse")
    case (Inl e)
    with valid show ?thesis unfolding MouseMove by simp
  next
    case (Inr c')
    then have "props c' = props c"
      and "hoverKey c' = None \<or> hoverKey c' \<in> set (map (Some \<circ> s_key) (p_data (props c)))"
      by (rule onMouseMove_Inr)+
    with Inr show ?thesis unfolding MouseMove by simp
  qed
next
  case MouseLeave
  show ?thesis unfolding MouseLeave by (simp add: onMouseLeave_def)
next
  case Click
  from valid show ?thesis unfolding Click
    by (auto simp: onClick_def split: option.splits)
next
  case (SetProps p')
  then have "hoverKey c = None \<or> hoverKey c \<in> set (map (Some \<circ> s_key) (p_data p'))"
    by (rule kept)
  then show ?thesis unfolding SetProps by simp
qed

text \<open>
  C8, as stated: in every reachable state the hover key is absent or the key of a series
  of the current input. After a mouse move over the one series \<open>A\<close> and new props with no
  series, the hover key is still \<open>A\<close>.
\<close>

theorem C8_counterexample:
  "hoverKey (run exampleLib (initialComponent sizedProps)
      [MouseMove \<lparr>vec_x = 0, vec_y = 0\<rparr>, SetProps (sizedProps\<lparr>p_data := []\<rparr>)]) = Some ''A'' \<and>
   p_data (props (run exampleLib (initialComponent sizedProps)
      [MouseMove \<lparr>vec_x = 0, vec_y = 0\<rparr>, SetProps (sizedProps\<lparr>p_data := []\<rparr>)])) = []"
proof -
  have "p_data (props (initialComponent sizedProps)) = [sizedSeries]"
    and "s_values sizedSeries \<noteq> []"
    by (simp_all add: initialComponent_def sizedProps_def sizedSeries_def)
  then have "\<exists>c'. onMouseMove exampleLib (initialComponent sizedProps) \<lparr>vec_x = 0, vec_y = 0\<rparr> = Inr c' \<and>
      hoverKey c' = Some (s_key sizedSeries) \<and> props c' = props (initialComponent sizedProps)"
    by (rule onMouseMove_single)
  then obtain c' where
    "onMouseMove exampleLib (initialComponent sizedProps) \<lparr>vec_x = 0, vec_y = 0\<rparr> = Inr c'"
    and "hoverKey c' = Some ''A''"
    by (auto simp: sizedSeries_def)
  then show ?thesis
    by (simp add: run_def)
qed

text \<open>
  C8, amended: from a state in which the hover key is absent or the key of a series of
  the input (as in the initial state), every sequence of mouse moves, mouse leaves,
  clicks and changes of the props leads to such a state again, provided that each change
  of the props keeps the series whose key is the hover key at that moment, if there is
  one. The list of series may change otherwise. (A change of the props does not touch
  the hover key, so removing the hovered series leaves the key of a series that is gone.)
\<close>

theorem C8_hover_key_valid:
  assumes "hoverKey c = None \<or> hoverKey c \<in> set (map (Some \<circ> s_key) (p_data (props c)))"
    and "\<forall>n p'. n < length evs \<and> evs ! n = SetProps p' \<longrightarrow>
           hoverKey (run lib c (take n evs)) = None \<or>
           hoverKey (run lib c (take n evs)) \<in> set (map (Some \<circ> s_key) (p_data p'))"
  shows "hoverKey (run lib c evs) = None \<or>
         hoverKey (run lib c evs) \<in> set (map (Some \<circ> s_key) (p_data (props (run lib c evs))))"
  using assms
proof (induction evs arbitrary: c)
  case Nil
  then show ?case by (simp add: run_def)
next
  case (Cons ev evs)
  have v: "hoverKey (step lib c ev) = None \<or>
         hoverKey (step lib c ev) \<in> set (map (Some \<circ> s_key) (p_data (props (step lib c ev))))"
    using Cons.prems(1)
  proof (rule step_valid)
    fix p' assume "ev = SetProps p'"
    then have "0 < length (ev # evs) \<and> (ev # evs) ! 0 = SetProps p'"
      by simp
    with Cons.prems(2) have "hoverKey (run lib c (take 0 (ev # evs))) = None \<or>
        hoverKey (run lib c (take 0 (ev # evs))) \<in> set (map (Some \<circ> s_key) (p_data p'))"
      by blast
    then show "hoverKey c = None \<or> hoverKey c \<in> set (map (Some \<circ> s_key) (p_data p'))"
      by (simp add: run_def)
  qed
  have "hoverKey (run lib (step lib c ev) evs) = None \<or>
         hoverKey (run lib (step lib c ev) evs)
           \<in> set (map (Some \<circ> s_key) (p_data (props (run lib (step lib c ev) evs))))"
    using v
  proof (rule Cons.IH)
    show "\<forall>n p'. n < length evs \<and> evs ! n = SetProps p' \<longrightarrow>
           hoverKey (run lib (step lib c ev) (take n evs)) = None \<or>
           hoverKey (run lib (step lib c ev) (take n evs)) \<in> set (map (Some \<circ> s_key) (p_data p'))"
    proof (intro allI impI)
      fix n p' assume "n < length evs \<and> evs ! n = SetProps p'"
      then have "Suc n < length (ev # evs) \<and> (ev # evs) ! Suc n = SetProps p'"
        by simp
      with Cons.prems(2) have "hoverKey (run lib c (take (Suc n) (ev # evs))) = None \<or>
          hoverKey (run lib c (take (Suc n) (ev # evs))) \<in> set (map (Some \<circ> s_key) (p_data p'))"
        by blast
      then show "hoverKey (run lib (step lib c ev) (take n evs)) = None \<or>
           hoverKey (run lib (step lib c ev) (take n evs)) \<in> set (map (Some \<circ> s_key) (p_data p'))"
        by (simp add: run_Cons)
    qed
  qed
  then show ?case by (simp add: run_Cons)
qed

theorem C8_hover_key_valid_witness:
  "hoverKey (initialComponent sizedProps) = None \<and>
   [MouseMove \<lparr>vec_x = 0, vec_y = 0\<rparr>, Click, SetProps updatedProps] ! 2 = SetProps updatedProps \<and>
   hoverKey (run exampleLib (initialComponent sizedProps)
      (take 2 [MouseMove \<lparr>vec_x = 0, vec_y = 0\<rparr>, Click, SetProps updatedProps])) = Some ''A'' \<and>
   Some ''A'' \<in> set (map (Some \<circ> s_key) (p_data updatedProps)) \<and>
   p_data updatedProps \<noteq> p_data sizedProps \<and>
   hoverKey (run exampleLib (initialComponent sizedProps)
      [MouseMove \<lparr>vec_x = 0, vec_y = 0\<rparr>, Click, SetProps updatedProps])
     \<in> set (map (Some \<circ> s_key) (p_data (props (run exampleLib (initialComponent sizedProps)
      [MouseMove \<lparr>vec_x = 0, vec_y = 0\<rparr>, Click, SetProps updatedProps]))))"
proof -
  let ?m = "\<lparr>vec_x = 0, vec_y = 0\<rparr> :: Vector2"
  let ?c = "initialComponent sizedProps"
  let ?evs = "[MouseMove ?m, Click, SetProps updatedProps]"
  have "p_data (props ?c) = [sizedSeries]" and "s_values sizedSeries \<noteq> []"
    by (simp_all add: initialComponent_def sizedProps_def sizedSeries_def)
  then have "\<exists>c'. onMouseMove exampleLib ?c ?m = Inr c' \<and>
      hoverKey c' = Some (s_key sizedSeries) \<and> props c' = props ?c"
    by (rule onMouseMove_single)
  then obtain c' where c': "onMouseMove exampleLib ?c ?m = Inr c'" "hoverKey c' = Some ''A''"
    by (auto simp: sizedSeries_def)
  have moved: "hoverKey (run exampleLib ?c [MouseMove ?m]) = Some ''A''"
    using c' by (simp add: run_def)
  have clicked: "hoverKey (run exampleLib ?c [MouseMove ?m, Click]) = Some ''A''"
    using c' by (simp add: run_def onClick_def)
  have final: "hoverKey (run exampleLib ?c ?evs) = Some ''A''"
    using c' by (simp add: run_def onClick_def)
  have start: "hoverKey ?c = None"
    by (simp add: initialComponent_def)
  have key: "Some ''A'' \<in> set (map (Some \<circ> s_key) (p_data updatedProps))"
    by (simp add: updatedProps_def sizedSeries_def)
  have changed: "p_data updatedProps \<noteq> p_data sizedProps"
    by (simp add: updatedProps_def sizedProps_def)
  have kept: "\<forall>n p'. n < length ?evs \<and> ?evs ! n = SetProps p' \<longrightarrow>
      hoverKey (run exampleLib ?c (take n ?evs)) = None \<or>
      hoverKey (run exampleLib ?c (take n ?evs)) \<in> set (map (Some \<circ> s_key) (p_data p'))"
  proof (intro allI impI)
    fix n p' assume a: "n < length ?evs \<and> ?evs ! n = SetProps p'"
    then have "n = 0 \<or> n = 1 \<or> n = 2"
      by auto
    with a have "n = 2" and "p' = updatedProps"
      by auto
    with clicked key show "hoverKey (run exampleLib ?c (take n ?evs)) = None \<or>
      hoverKey (run exampleLib ?c (take n ?evs)) \<in> set (map (Some \<circ> s_key) (p_data p'))"
      by simp
  qed
  from start have valid: "hoverKey ?c = None \<or>
      hoverKey ?c \<in> set (map (Some \<circ> s_key) (p_data (props ?c)))"
    by (rule disjI1)
  have "hoverKey (run exampleLib ?c ?evs) = None \<or>
      hoverKey (run exampleLib ?c ?evs)
        \<in> set (map (Some \<circ> s_key) (p_data (props (run exampleLib ?c ?evs))))"
    using valid kept by (rule C8_hover_key_valid)
  with final have last: "hoverKey (run exampleLib ?c ?evs)
        \<in> set (map (Some \<circ> s_key) (p_data (props (run exampleLib ?c ?evs))))"
    by (simp only: option.distinct simp_thms)
  have third: "?evs ! 2 = SetProps updatedProps"
    by simp
  have taken: "hoverKey (run exampleLib ?c (take 2 ?evs)) = Some ''A''"
    using clicked by simp
  from start third taken key changed last show ?thesis
    by (intro conjI)
qed

end
